theory Spec2Isabelle
  imports Main
begin

section \<open>Data model of the server setup (server_setup.py)\<close>

text \<open>
  Paths are lists of components (\<open>a / b\<close> of pathlib appends a component). A Python
  \<open>str\<close> is a \<open>string\<close>; each \<open>char\<close> stands for one code point below 256, the
  range on which the regular expression class \<open>\d\<close> is exactly \<open>0-9\<close>.
\<close>

type_synonym path = "string list"

text \<open>A \<open>subprocess.Popen\<close> object, remembered by the command line it was started with.\<close>

datatype proc = Popen "string list"

text \<open>
  The fields of \<open>JupyterMCPServerSetup\<close> that the operations below read or write,
  together with \<open>validated_env\<close> of its \<open>EnvironmentManager\<close>. A dict of strings is
  an association list in insertion order.
\<close>

record setup_state =
  custom_port :: "int option"
  custom_token :: "string option"
  cleanup_on_exit :: bool
  claude_config :: bool
  project_dir :: path
  notebook_path :: path
  mcp_config_path :: path
  jupyter_process :: "proc option"
  mcp_process :: "proc option"
  jupyter_port :: "int option"
  jupyter_token :: "string option"
  jupyter_url :: "string option"
  validated_env :: "(string \<times> string) list"

section \<open>Scraping the connection facts: \<open>_extract_jupyter_details\<close>\<close>

definition is_digit :: "char \<Rightarrow> bool" where
  "is_digit c = (c \<in> set ''0123456789'')"

definition is_hex :: "char \<Rightarrow> bool" where
  "is_hex c = (c \<in> set ''abcdef0123456789'')"

fun strip_prefix :: "string \<Rightarrow> string \<Rightarrow> string option" where
  "strip_prefix [] s = Some s"
| "strip_prefix (c # cs) [] = None"
| "strip_prefix (c # cs) (d # ds) = (if c = d then strip_prefix cs ds else None)"

text \<open>
  Each of the four regular expressions is \<open>lit1 (\d+) lit2 ([a-f0-9]+)\<close> with two
  literal texts. \<open>lit2\<close> starts with \<open>/\<close>, which is no digit, and nothing follows the
  second group, so the greedy groups are the longest runs and no backtracking can
  shorten them. \<open>match_at\<close> is a match anchored at the start of \<open>s\<close>; it returns the
  two groups.
\<close>

type_synonym pattern = "string \<times> string"

definition match_at :: "pattern \<Rightarrow> string \<Rightarrow> (string \<times> string) option" where
  "match_at p s =
     (case strip_prefix (fst p) s of
        None \<Rightarrow> None
      | Some r \<Rightarrow>
          (let g1 = takeWhile is_digit r in
           if g1 = [] then None
           else case strip_prefix (snd p) (dropWhile is_digit r) of
                  None \<Rightarrow> None
                | Some r' \<Rightarrow>
                    (let g2 = takeWhile is_hex r' in
                     if g2 = [] then None else Some (g1, g2))))"

text \<open>\<open>re.search\<close>: the match at the leftmost position where one exists.\<close>

fun re_search :: "pattern \<Rightarrow> string \<Rightarrow> (string \<times> string) option" where
  "re_search p [] = match_at p []"
| "re_search p (c # cs) =
     (case match_at p (c # cs) of Some m \<Rightarrow> Some m | None \<Rightarrow> re_search p cs)"

definition patterns :: "pattern list" where
  "patterns =
     [(''http://localhost:'', ''/lab?token=''),
      (''http://localhost:'', ''/?token=''),
      (''http://127.0.0.1:'', ''/lab?token=''),
      (''http://127.0.0.1:'', ''/?token='')]"

text \<open>\<open>int(s)\<close> on a non-empty run of decimal digits.\<close>

definition digit_val :: "char \<Rightarrow> int" where
  "digit_val c = int (of_char c) - 48"

definition py_int :: "string \<Rightarrow> int" where
  "py_int s = foldl (\<lambda>a c. 10 * a + digit_val c) 0 s"

text \<open>\<open>str(n)\<close>, as the f-string formats the port.\<close>

fun str_nat :: "nat \<Rightarrow> string" where
  "str_nat n =
     (if n < 10 then [''0123456789'' ! n]
      else str_nat (n div 10) @ [''0123456789'' ! (n mod 10)])"

definition str_int :: "int \<Rightarrow> string" where
  "str_int i = (if i < 0 then CHR ''-'' # str_nat (nat (- i)) else str_nat (nat i))"

text \<open>
  The loop over the patterns: a match whose port is not positive does not return,
  the loop goes on with the next pattern.
\<close>

fun try_patterns :: "pattern list \<Rightarrow> string \<Rightarrow> (int \<times> string) option" where
  "try_patterns [] line = None"
| "try_patterns (p # ps) line =
     (case re_search p line of
        None \<Rightarrow> try_patterns ps line
      | Some (g1, g2) \<Rightarrow>
          (let port = py_int g1 in
           if port > 0 then Some (port, g2) else try_patterns ps line))"

definition extract_jupyter_details :: "setup_state \<Rightarrow> string \<Rightarrow> bool \<times> setup_state" where
  "extract_jupyter_details st line =
     (case try_patterns patterns line of
        None \<Rightarrow> (False, st)
      | Some (port, tok) \<Rightarrow>
          (True, st\<lparr>jupyter_port := Some port,
                    jupyter_token := Some tok,
                    jupyter_url := Some (''http://localhost:'' @ str_int port)\<rparr>))"

text \<open>The offsets at which \<open>w\<close> occurs in \<open>s\<close>.\<close>

fun find_all :: "string \<Rightarrow> string \<Rightarrow> nat list" where
  "find_all w [] = (if w = [] then [0] else [])"
| "find_all w (c # cs) =
     (if strip_prefix w (c # cs) \<noteq> None then [0] else []) @ map Suc (find_all w cs)"

section \<open>Values shared by the managers\<close>

text \<open>
  What \<open>json.load\<close> returns and \<open>json.dump\<close> writes. An object is the list of its
  members in insertion order, as a Python dict keeps them; keys are distinct. A float
  is kept by its \<open>repr\<close>.
\<close>

datatype json =
    JNull
  | JBool bool
  | JNum int
  | JFloat string
  | JStr string
  | JArr "json list"
  | JObj "(string \<times> json) list"

text \<open>
  A file holds either the text of a JSON document, kept as the document, or text
  that \<open>json.load\<close> rejects. A file opened with mode \<open>'w'\<close> is empty, \<open>Invalid []\<close>,
  until something is written to it.
\<close>

datatype fcontent = Invalid string | Doc json

type_synonym filesystem = "path \<Rightarrow> fcontent option"

text \<open>The exceptions that cross function boundaries; \<open>OtherException\<close> is any other
  subclass of \<open>Exception\<close> (OSError, ValueError, TypeError, ...).\<close>

datatype py_exc =
    SetupError
  | InstallationError
  | ValidationError
  | ServerSetupError
  | OtherException
  | KeyboardInterrupt
  | SystemExit int

fun is_Exception :: "py_exc \<Rightarrow> bool" where
  "is_Exception KeyboardInterrupt = False"
| "is_Exception (SystemExit c) = False"
| "is_Exception e = True"

fun join_slash :: "string list \<Rightarrow> string" where
  "join_slash [] = []"
| "join_slash [x] = x"
| "join_slash (x # y # ys) = x @ ''/'' @ join_slash (y # ys)"

text \<open>\<open>str\<close> of an absolute path.\<close>

definition str_path :: "path \<Rightarrow> string" where
  "str_path p = CHR ''/'' # join_slash p"

definition get_virtual_env_path :: "path \<Rightarrow> path" where
  "get_virtual_env_path proj = proj @ [''jupyter-mcp-env'']"

text \<open>\<open>PathManager.get_relative_path_for_document_id\<close>: relative to the project
  directory when the notebook lies below it, the absolute path otherwise.\<close>

definition get_relative_path_for_document_id :: "path \<Rightarrow> path \<Rightarrow> string" where
  "get_relative_path_for_document_id proj nb =
     (if take (length proj) nb = proj
      then (let r = drop (length proj) nb in if r = [] then ''.'' else join_slash r)
      else str_path nb)"

section \<open>\<open>EnvironmentManager\<close>\<close>

text \<open>
  \<open>urllib.parse.urlparse\<close> is a parameter: it gives the scheme and the network
  location of a URL, or \<open>None\<close> where it raises.
\<close>

type_synonym urlparser = "string \<Rightarrow> (string \<times> string) option"

definition validate_url :: "urlparser \<Rightarrow> string \<Rightarrow> bool" where
  "validate_url urlparse url =
     (case urlparse url of
        None \<Rightarrow> False
      | Some (scheme, netloc) \<Rightarrow> scheme \<noteq> [] \<and> netloc \<noteq> [])"

text \<open>
  \<open>re.match(r'^[a-f0-9]+$', token)\<close>: a non-empty run of hex digits from the start,
  after which \<open>$\<close> must match. In Python \<open>$\<close> matches at the end of the string and
  also just before a newline that ends the string.
\<close>

definition re_match_hex :: "string \<Rightarrow> bool" where
  "re_match_hex token =
     (let r = dropWhile is_hex token
      in takeWhile is_hex token \<noteq> [] \<and> (r = [] \<or> r = [CHR 0x0A]))"

definition validate_token :: "string \<Rightarrow> bool" where
  "validate_token token =
     (if token = [] \<or> length token < 8 then False
      else if \<not> re_match_hex token then False
      else True)"

definition env_vars_of :: "string \<Rightarrow> string \<Rightarrow> string \<Rightarrow> (string \<times> string) list" where
  "env_vars_of url tok nb =
     [(''TRANSPORT'', ''stdio''),
      (''PROVIDER'', ''jupyter''),
      (''DOCUMENT_URL'', url),
      (''DOCUMENT_TOKEN'', tok),
      (''DOCUMENT_ID'', nb),
      (''RUNTIME_URL'', url),
      (''RUNTIME_TOKEN'', tok),
      (''START_NEW_RUNTIME'', ''true'')]"

text \<open>
  Every \<open>ValueError\<close> raised inside is caught and raised again as
  \<open>ServerSetupError\<close>; \<open>validated_env\<close> is assigned only after all checks.
\<close>

definition create_jupyter_environment ::
  "urlparser \<Rightarrow> setup_state \<Rightarrow> string \<Rightarrow> string \<Rightarrow> string
     \<Rightarrow> (py_exc + (string \<times> string) list) \<times> setup_state" where
  "create_jupyter_environment urlparse st url tok nb =
     (if \<not> validate_url urlparse url then (Inl ServerSetupError, st)
      else if \<not> validate_token tok then (Inl ServerSetupError, st)
      else
        (let env_vars = env_vars_of url tok nb
         in if list_ex (\<lambda>(key, value). value = []) env_vars
            then (Inl ServerSetupError, st)
            else (Inr env_vars, st\<lparr>validated_env := env_vars\<rparr>)))"

section \<open>\<open>ClaudeConfigManager\<close>\<close>

definition get_claude_config_path :: "path \<Rightarrow> path" where
  "get_claude_config_path proj = proj @ [''.claude'', ''settings.local.json'']"

text \<open>An absent file and a file with invalid JSON both give the empty dict.\<close>

definition load_existing_claude_settings :: "filesystem \<Rightarrow> path \<Rightarrow> json" where
  "load_existing_claude_settings fs p =
     (case fs p of
        None \<Rightarrow> JObj []
      | Some (Invalid raw) \<Rightarrow> JObj []
      | Some (Doc j) \<Rightarrow> j)"

text \<open>\<open>d[k] = v\<close> on a dict: a present key keeps its place, a new key goes last.\<close>

fun dict_set :: "string \<Rightarrow> json \<Rightarrow> (string \<times> json) list \<Rightarrow> (string \<times> json) list" where
  "dict_set k v [] = [(k, v)]"
| "dict_set k v ((k', v') # kvs) =
     (if k = k' then (k, v) # kvs else (k', v') # dict_set k v kvs)"

definition is_substring :: "string \<Rightarrow> string \<Rightarrow> bool" where
  "is_substring w s = (find_all w s \<noteq> [])"

text \<open>
  \<open>update_enabled_mcp_servers\<close> mutates the dict it is given and returns it. The
  membership test and \<open>append\<close> depend on what the key holds: a list is searched and
  extended; a string is searched as text and a dict by key, and neither can be
  appended to; any other value, and any settings document that is not a dict, raises
  (\<open>TypeError\<close> or \<open>AttributeError\<close>).
\<close>

fun update_enabled_mcp_servers :: "string \<Rightarrow> json \<Rightarrow> py_exc + json" where
  "update_enabled_mcp_servers server_name (JObj kvs) =
     (let kvs1 = (if ''enabledMcpjsonServers'' \<notin> fst ` set kvs
                  then dict_set ''enabledMcpjsonServers'' (JArr []) kvs else kvs)
      in case map_of kvs1 ''enabledMcpjsonServers'' of
           Some (JArr xs) \<Rightarrow>
             if JStr server_name \<notin> set xs
             then Inr (JObj (dict_set ''enabledMcpjsonServers'' (JArr (xs @ [JStr server_name])) kvs1))
             else Inr (JObj kvs1)
         | Some (JStr s) \<Rightarrow>
             if is_substring server_name s then Inr (JObj kvs1) else Inl OtherException
         | Some (JObj m) \<Rightarrow>
             if server_name \<in> fst ` set m then Inr (JObj kvs1) else Inl OtherException
         | _ \<Rightarrow> Inl OtherException)"
| "update_enabled_mcp_servers server_name other = Inl OtherException"

section \<open>The world around one run\<close>

datatype role = Bridge | Interactive

text \<open>What the startup loop of \<open>start_jupyter_lab\<close> sees in one turn.\<close>

datatype poll_event = Exited | ReadLine string | ReadRaises

text \<open>What the monitoring loop sees in one turn; \<open>Signal n\<close> is the delivery of signal
  \<open>n\<close> to the installed handler.\<close>

datatype tick = Alive | InteractiveExited | BridgeExited | Interrupted | Signal nat

text \<open>
  How stopping a process goes: it exits on \<open>terminate()\<close> within the timeout;
  \<open>terminate()\<close> raises; \<open>wait()\<close> raises something other than
  \<open>TimeoutExpired\<close>; \<open>wait()\<close> times out and \<open>kill()\<close> works; \<open>wait()\<close> times
  out and \<open>kill()\<close> raises.
\<close>

datatype stop_outcome =
    ExitsOnTerminate
  | TerminateRaises
  | WaitRaises
  | KilledAfterTimeout
  | KillRaises

text \<open>
  Everything outside the program that a run depends on. \<open>stop_of r k\<close> is how the
  \<open>k\<close>-th attempt to stop the process of role \<open>r\<close> goes. The observations are
  finite: when \<open>monitor_ticks\<close> runs out, the monitoring loop is still running.
\<close>

record world =
  urlparse :: urlparser
  sys_executable :: string
  venv_python_exists :: bool
  venv_python_executable :: bool
  jupyter_popen_ok :: bool
  jupyter_output :: "poll_event list"
  mcp_popen_ok :: bool
  mcp_alive_after_delay :: bool
  mcp_config_writable :: bool
  claude_dir_ok :: bool
  claude_settings_writable :: bool
  monitor_ticks :: "tick list"
  stop_of :: "role \<Rightarrow> nat \<Rightarrow> stop_outcome"
  unlink_ok :: bool

datatype event =
    Launched role "string list"
  | FactsExtracted int string
  | ConfirmedRunning role
  | DiscoveryWritten path
  | SettingsWritten path
  | Terminate role
  | Wait role
  | Kill role
  | Unlink path
  | LogError

text \<open>The setup object, the files on disk and what has been done so far.\<close>

record run_state =
  obj :: setup_state
  files :: filesystem
  trace :: "event list"

definition emit :: "event list \<Rightarrow> run_state \<Rightarrow> run_state" where
  "emit es rs = rs\<lparr>trace := trace rs @ es\<rparr>"

text \<open>\<open>utils.get_virtual_env_python\<close>: the path, or \<open>SetupError\<close>; whether the file exists and
  may be executed is asked of the file system.\<close>

definition get_virtual_env_python :: "bool \<Rightarrow> bool \<Rightarrow> path \<Rightarrow> py_exc + path" where
  "get_virtual_env_python exists executable proj =
     (if \<not> exists then Inl SetupError
      else if \<not> executable then Inl SetupError
      else Inr (get_virtual_env_path proj @ [''bin'', ''python'']))"

definition venv_python :: "world \<Rightarrow> path \<Rightarrow> py_exc + path" where
  "venv_python w proj =
     get_virtual_env_python (venv_python_exists w) (venv_python_executable w) proj"

section \<open>Teardown: \<open>cleanup\<close> and the signal handler\<close>

text \<open>
  One \<open>try\<close> block of \<open>cleanup\<close>: the calls made, and the exception that leaves the
  block. \<open>kill()\<close> is called inside the handler of \<open>TimeoutExpired\<close>, where the
  clause \<open>except Exception\<close> of the same \<open>try\<close> does not apply.
\<close>

fun stop_process :: "role \<Rightarrow> stop_outcome \<Rightarrow> event list \<times> py_exc option" where
  "stop_process r ExitsOnTerminate = ([Terminate r, Wait r], None)"
| "stop_process r TerminateRaises = ([Terminate r, LogError], None)"
| "stop_process r WaitRaises = ([Terminate r, Wait r, LogError], None)"
| "stop_process r KilledAfterTimeout = ([Terminate r, Wait r, Kill r], None)"
| "stop_process r KillRaises = ([Terminate r, Wait r, Kill r], Some OtherException)"

definition attempts :: "role \<Rightarrow> run_state \<Rightarrow> nat" where
  "attempts r rs = length (filter (\<lambda>e. e = Terminate r) (trace rs))"

definition stop_if_started :: "world \<Rightarrow> role \<Rightarrow> proc option \<Rightarrow> run_state
     \<Rightarrow> py_exc option \<times> run_state" where
  "stop_if_started w r p rs =
     (case p of
        None \<Rightarrow> (None, rs)
      | Some pr \<Rightarrow>
          (let (es, x) = stop_process r (stop_of w r (attempts r rs)) in (x, emit es rs)))"

definition retract_config :: "world \<Rightarrow> run_state \<Rightarrow> run_state" where
  "retract_config w rs =
     (let p = mcp_config_path (obj rs)
      in if \<not> cleanup_on_exit (obj rs) then rs
         else if files rs p = None then rs
         else if unlink_ok w then emit [Unlink p] (rs\<lparr>files := (files rs)(p := None)\<rparr>)
         else emit [Unlink p, LogError] rs)"

definition cleanup :: "world \<Rightarrow> run_state \<Rightarrow> py_exc option \<times> run_state" where
  "cleanup w rs =
     (case stop_if_started w Bridge (mcp_process (obj rs)) rs of
        (Some e, rs1) \<Rightarrow> (Some e, rs1)
      | (None, rs1) \<Rightarrow>
          (case stop_if_started w Interactive (jupyter_process (obj rs1)) rs1 of
             (Some e, rs2) \<Rightarrow> (Some e, rs2)
           | (None, rs2) \<Rightarrow> (None, retract_config w rs2)))"

text \<open>\<open>_signal_handler\<close>: the exception with which the handler leaves, \<open>SystemExit(0)\<close>
  unless \<open>cleanup\<close> itself raised. The signal number is only logged.\<close>

definition signal_handler :: "world \<Rightarrow> nat \<Rightarrow> run_state \<Rightarrow> py_exc \<times> run_state" where
  "signal_handler w signum rs =
     (case cleanup w rs of
        (Some e, rs') \<Rightarrow> (e, rs')
      | (None, rs') \<Rightarrow> (SystemExit 0, rs'))"

section \<open>Startup: \<open>start_jupyter_lab\<close> and \<open>start_mcp_server\<close>\<close>

definition jupyter_cmd :: "setup_state \<Rightarrow> string \<Rightarrow> string list" where
  "jupyter_cmd st py =
     [py, ''-m'', ''jupyter'', ''lab'']
     @ (case custom_port st of
          Some p \<Rightarrow> if p \<noteq> 0 then [''--port'', str_int p] else [''--port'', ''0'']
        | None \<Rightarrow> [''--port'', ''0''])
     @ (case custom_token st of
          Some t \<Rightarrow> if t \<noteq> [] then [''--IdentityProvider.token'', t] else []
        | None \<Rightarrow> [])
     @ [''--no-browser'', ''--allow-root'',
        ''--notebook-dir='' @ str_path (butlast (notebook_path st))]"

text \<open>
  The loop that reads the server's output until the 30 seconds are over (the list of
  turns is exhausted). An exception while reading is swallowed by the inner
  \<open>try\<close>; an empty read sleeps and goes on.
\<close>

fun scan_output :: "poll_event list \<Rightarrow> run_state \<Rightarrow> (py_exc + bool) \<times> run_state" where
  "scan_output [] rs = (Inl ServerSetupError, rs)"
| "scan_output (Exited # evs) rs = (Inl ServerSetupError, rs)"
| "scan_output (ReadRaises # evs) rs = scan_output evs rs"
| "scan_output (ReadLine line # evs) rs =
     (if line = [] then scan_output evs rs
      else case extract_jupyter_details (obj rs) line of
             (True, st') \<Rightarrow>
               (Inr True,
                emit [FactsExtracted (the (jupyter_port st')) (the (jupyter_token st'))]
                  (rs\<lparr>obj := st'\<rparr>))
           | (False, st') \<Rightarrow> scan_output evs (rs\<lparr>obj := st'\<rparr>))"

definition start_jupyter_lab :: "world \<Rightarrow> run_state \<Rightarrow> (py_exc + bool) \<times> run_state" where
  "start_jupyter_lab w rs =
     (case venv_python w (project_dir (obj rs)) of
        Inl e \<Rightarrow> (Inl ServerSetupError, rs)
      | Inr py \<Rightarrow>
          if \<not> jupyter_popen_ok w then (Inl ServerSetupError, rs)
          else
            (let cmd = jupyter_cmd (obj rs) (str_path py)
             in scan_output (jupyter_output w)
                  (emit [Launched Interactive cmd]
                     (rs\<lparr>obj := (obj rs)\<lparr>jupyter_process := Some (Popen cmd)\<rparr>\<rparr>))))"

text \<open>Python truth of the two attributes: \<open>None\<close>, \<open>0\<close> and \<open>''\<close> are false.\<close>

definition details_available :: "setup_state \<Rightarrow> bool" where
  "details_available st =
     ((case jupyter_port st of None \<Rightarrow> False | Some p \<Rightarrow> p \<noteq> 0)
      \<and> (case jupyter_token st of None \<Rightarrow> False | Some t \<Rightarrow> t \<noteq> []))"

text \<open>The environment both \<open>start_mcp_server\<close> and \<open>_generate_mcp_config\<close> ask for. A URL
  attribute that is still \<open>None\<close> does not pass \<open>validate_url\<close>.\<close>

definition bridge_environment ::
  "world \<Rightarrow> setup_state \<Rightarrow> (py_exc + (string \<times> string) list) \<times> setup_state" where
  "bridge_environment w st =
     (case (jupyter_url st, jupyter_token st) of
        (Some url, Some tok) \<Rightarrow>
          create_jupyter_environment (urlparse w) st url tok
            (get_relative_path_for_document_id (project_dir st) (notebook_path st))
      | _ \<Rightarrow> (Inl ServerSetupError, st))"

definition mcp_cmd :: "string \<Rightarrow> string list" where
  "mcp_cmd py = [py, ''-m'', ''jupyter_mcp_server'']"

definition start_mcp_server :: "world \<Rightarrow> run_state \<Rightarrow> (py_exc + bool) \<times> run_state" where
  "start_mcp_server w rs =
     (if \<not> details_available (obj rs) then (Inl ServerSetupError, rs)
      else case bridge_environment w (obj rs) of
             (Inl e, st') \<Rightarrow> (Inl ServerSetupError, rs\<lparr>obj := st'\<rparr>)
           | (Inr env, st') \<Rightarrow>
               (case venv_python w (project_dir st') of
                  Inl e \<Rightarrow> (Inl ServerSetupError, rs\<lparr>obj := st'\<rparr>)
                | Inr py \<Rightarrow>
                    if \<not> mcp_popen_ok w then (Inl ServerSetupError, rs\<lparr>obj := st'\<rparr>)
                    else
                      (let cmd = mcp_cmd (str_path py);
                           rs1 = emit [Launched Bridge cmd]
                                   (rs\<lparr>obj := st'\<lparr>mcp_process := Some (Popen cmd)\<rparr>\<rparr>)
                       in if mcp_alive_after_delay w
                          then (Inr True, emit [ConfirmedRunning Bridge] rs1)
                          else (Inl ServerSetupError, rs1))))"

section \<open>Writing the configuration files\<close>

text \<open>
  \<open>open(path, 'w')\<close> followed by \<open>json.dump\<close>: the states the file system goes
  through. The file is truncated in place when it is opened and holds the document
  when the dump is complete.
\<close>

definition write_json_states :: "path \<Rightarrow> json \<Rightarrow> filesystem \<Rightarrow> filesystem list" where
  "write_json_states p j fs = [fs(p \<mapsto> Invalid []), fs(p \<mapsto> Doc j)]"

definition mcp_config :: "string \<Rightarrow> (string \<times> string) list \<Rightarrow> json" where
  "mcp_config command env_vars =
     JObj [(''mcpServers'',
       JObj [(''jupyter'',
         JObj [(''command'', JStr command),
               (''args'', JArr [JStr ''-m'', JStr ''jupyter_mcp_server'']),
               (''env'', JObj (map (\<lambda>(k, v). (k, JStr v)) env_vars))])])]"

text \<open>\<open>_generate_mcp_config\<close>, with the file-system states of its write (none when it
  raises before or on opening the file).\<close>

definition generate_mcp_config_states ::
  "world \<Rightarrow> run_state \<Rightarrow> (py_exc + filesystem list) \<times> setup_state" where
  "generate_mcp_config_states w rs =
     (case bridge_environment w (obj rs) of
        (Inl e, st') \<Rightarrow> (Inl e, st')
      | (Inr env_vars, st') \<Rightarrow>
          if \<not> mcp_config_writable w then (Inl OtherException, st')
          else (Inr (write_json_states (mcp_config_path st')
                       (mcp_config (sys_executable w) env_vars) (files rs)), st'))"

definition generate_mcp_config :: "world \<Rightarrow> run_state \<Rightarrow> py_exc option \<times> run_state" where
  "generate_mcp_config w rs =
     (case generate_mcp_config_states w rs of
        (Inl e, st') \<Rightarrow> (Some e, rs\<lparr>obj := st'\<rparr>)
      | (Inr states, st') \<Rightarrow>
          (None, emit [DiscoveryWritten (mcp_config_path st')]
                   (rs\<lparr>obj := st', files := last states\<rparr>)))"

text \<open>\<open>ClaudeConfigManager.generate_claude_settings\<close>: every failure is logged and gives
  \<open>False\<close>.\<close>

definition generate_claude_settings :: "world \<Rightarrow> string \<Rightarrow> run_state \<Rightarrow> bool \<times> run_state" where
  "generate_claude_settings w server_name rs =
     (if \<not> claude_dir_ok w then (False, emit [LogError] rs)
      else
        (let p = get_claude_config_path (project_dir (obj rs))
         in case update_enabled_mcp_servers server_name
                   (load_existing_claude_settings (files rs) p) of
              Inl e \<Rightarrow> (False, emit [LogError] rs)
            | Inr settings \<Rightarrow>
                if \<not> claude_settings_writable w then (False, emit [LogError] rs)
                else (True, emit [SettingsWritten p]
                              (rs\<lparr>files := last (write_json_states p settings (files rs))\<rparr>))))"

definition generate_configurations :: "world \<Rightarrow> run_state \<Rightarrow> (py_exc + bool) \<times> run_state" where
  "generate_configurations w rs =
     (if \<not> details_available (obj rs) then (Inl ServerSetupError, rs)
      else case generate_mcp_config w rs of
             (Some e, rs1) \<Rightarrow> (Inl ServerSetupError, rs1)
           | (None, rs1) \<Rightarrow>
               if claude_config (obj rs1)
               then (Inr True, snd (generate_claude_settings w ''jupyter'' rs1))
               else (Inr True, rs1))"

section \<open>Monitoring, \<open>run\<close> and the exit code\<close>

text \<open>
  \<open>monitor_processes\<close>: \<open>None\<close> when the observed turns run out with both processes
  alive. A signal runs the handler, whose exception leaves the loop.
\<close>

fun monitor_processes :: "world \<Rightarrow> tick list \<Rightarrow> run_state
     \<Rightarrow> (py_exc + bool) option \<times> run_state" where
  "monitor_processes w [] rs = (None, rs)"
| "monitor_processes w (Alive # ts) rs = monitor_processes w ts rs"
| "monitor_processes w (InteractiveExited # ts) rs =
     (if jupyter_process (obj rs) \<noteq> None then (Some (Inl ServerSetupError), rs)
      else monitor_processes w ts rs)"
| "monitor_processes w (BridgeExited # ts) rs =
     (if mcp_process (obj rs) \<noteq> None then (Some (Inl ServerSetupError), rs)
      else monitor_processes w ts rs)"
| "monitor_processes w (Interrupted # ts) rs = (Some (Inr True), rs)"
| "monitor_processes w (Signal n # ts) rs =
     (case signal_handler w n rs of (e, rs') \<Rightarrow> (Some (Inl e), rs'))"

text \<open>The \<open>try\<close> block of \<open>run\<close>.\<close>

definition run_body :: "world \<Rightarrow> run_state \<Rightarrow> (py_exc + bool) option \<times> run_state" where
  "run_body w rs =
     (case start_jupyter_lab w rs of
        (Inl e, rs1) \<Rightarrow> (Some (Inl e), rs1)
      | (Inr ok1, rs1) \<Rightarrow>
          if \<not> ok1 then (Some (Inr False), rs1)
          else (case start_mcp_server w rs1 of
                  (Inl e, rs2) \<Rightarrow> (Some (Inl e), rs2)
                | (Inr ok2, rs2) \<Rightarrow>
                    if \<not> ok2 then (Some (Inr False), rs2)
                    else (case generate_configurations w rs2 of
                            (Inl e, rs3) \<Rightarrow> (Some (Inl e), rs3)
                          | (Inr ok3, rs3) \<Rightarrow>
                              if \<not> ok3 then (Some (Inr False), rs3)
                              else monitor_processes w (monitor_ticks w) rs3)))"

text \<open>
  \<open>run\<close>: \<open>except Exception\<close> turns an exception into the result \<open>False\<close>,
  \<open>finally\<close> runs \<open>cleanup\<close>; an exception of \<open>cleanup\<close> replaces the outcome of
  the \<open>try\<close> block. \<open>None\<close>: the run is still monitoring.
\<close>

definition run :: "world \<Rightarrow> run_state \<Rightarrow> (py_exc + bool) option \<times> run_state" where
  "run w rs =
     (case run_body w rs of
        (None, rs1) \<Rightarrow> (None, rs1)
      | (Some out, rs1) \<Rightarrow>
          (case cleanup w rs1 of
             (Some e, rs2) \<Rightarrow> (Some (Inl e), rs2)
           | (None, rs2) \<Rightarrow>
               (Some (case out of
                        Inr b \<Rightarrow> Inr b
                      | Inl e \<Rightarrow> if is_Exception e then Inr False else Inl e), rs2)))"

text \<open>\<open>cli.run_server_setup_phase\<close> on the outcome of \<open>run\<close>: the exception it leaves
  with, if any.\<close>

fun run_server_setup_phase :: "py_exc + bool \<Rightarrow> py_exc option" where
  "run_server_setup_phase (Inr success) = (if success then None else Some ServerSetupError)"
| "run_server_setup_phase (Inl e) = (if is_Exception e then Some ServerSetupError else Some e)"

text \<open>The exit code \<open>cli.main\<close> ends with: its \<open>except\<close> clauses, and an uncaught
  \<open>SystemExit\<close> with its own code.\<close>

fun exit_code :: "py_exc option \<Rightarrow> int" where
  "exit_code None = 0"
| "exit_code (Some KeyboardInterrupt) = 130"
| "exit_code (Some (SystemExit c)) = c"
| "exit_code (Some e) = 1"

definition main_server_phase :: "world \<Rightarrow> run_state \<Rightarrow> int option \<times> run_state" where
  "main_server_phase w rs =
     (case run w rs of
        (None, rs') \<Rightarrow> (None, rs')
      | (Some out, rs') \<Rightarrow> (Some (exit_code (run_server_setup_phase out)), rs'))"

section \<open>The installer (installer.py)\<close>

text \<open>What \<open>install\<close> reads from and changes on disk below the project directory.\<close>

record install_env =
  venv_exists :: bool
  bin_python_exists :: bool
  bin_activate_exists :: bool
  bin_python_executable :: bool

text \<open>
  What the installer cannot decide itself: the interpreter version, whether the
  \<open>k\<close>-th external command of a call succeeds (\<open>run_command\<close> raises \<open>SetupError\<close>
  otherwise), and whether removing and creating the environment work.
\<close>

record install_oracle =
  python_version_ok :: bool
  command_ok :: "nat \<Rightarrow> string list \<Rightarrow> bool"
  rmtree_ok :: bool
  venv_create_ok :: bool

datatype effect = RunCommand "string list" | Rmtree path | VenvCreate path

type_synonym install_state = "install_env \<times> effect list"

definition validate_project_structure :: "install_env \<Rightarrow> bool" where
  "validate_project_structure env = (bin_python_exists env \<and> bin_activate_exists env)"

definition run_command :: "install_oracle \<Rightarrow> string list \<Rightarrow> install_state
     \<Rightarrow> py_exc option \<times> install_state" where
  "run_command orc cmd s =
     (case s of (env, effs) \<Rightarrow>
        ((if command_ok orc (length effs) cmd then None else Some SetupError),
         (env, effs @ [RunCommand cmd])))"

definition import_check :: "string" where
  "import_check = ''import jupyter_mcp_server; print('' @ [CHR 0x27] @ ''OK'' @ [CHR 0x27] @ '')''"

definition check_existing_installation :: "install_oracle \<Rightarrow> path \<Rightarrow> install_state
     \<Rightarrow> bool \<times> install_state" where
  "check_existing_installation orc proj s =
     (case s of (env, effs) \<Rightarrow>
        if \<not> venv_exists env then (False, s)
        else if validate_project_structure env
        then (case get_virtual_env_python (bin_python_exists env) (bin_python_executable env) proj of
                Inl e \<Rightarrow> (False, s)
              | Inr py \<Rightarrow>
                  (case run_command orc [str_path py, ''-c'', import_check] s of
                     (None, s') \<Rightarrow> (True, s')
                   | (Some e, s') \<Rightarrow> (False, s')))
        else (False, s))"

definition create_virtual_environment :: "install_oracle \<Rightarrow> path \<Rightarrow> install_state
     \<Rightarrow> py_exc option \<times> install_state" where
  "create_virtual_environment orc proj s =
     (case s of (env, effs) \<Rightarrow>
        (let venv = get_virtual_env_path proj;
             gone = \<lparr>venv_exists = False, bin_python_exists = False,
                      bin_activate_exists = False, bin_python_executable = False\<rparr>;
             fresh = \<lparr>venv_exists = True, bin_python_exists = True,
                       bin_activate_exists = True, bin_python_executable = True\<rparr>
         in if venv_exists env \<and> \<not> rmtree_ok orc
            then (Some InstallationError, (env, effs @ [Rmtree venv]))
            else
              (let s1 = (if venv_exists env then (gone, effs @ [Rmtree venv]) else s)
               in if \<not> venv_create_ok orc
                  then (Some InstallationError, (fst s1, snd s1 @ [VenvCreate venv]))
                  else (None, (fresh, snd s1 @ [VenvCreate venv])))))"

text \<open>A command run with the environment's interpreter; every failure becomes
  \<open>InstallationError\<close>.\<close>

definition venv_command :: "install_oracle \<Rightarrow> path \<Rightarrow> string list \<Rightarrow> install_state
     \<Rightarrow> py_exc option \<times> install_state" where
  "venv_command orc proj args s =
     (case get_virtual_env_python (bin_python_exists (fst s)) (bin_python_executable (fst s)) proj of
        Inl e \<Rightarrow> (Some InstallationError, s)
      | Inr py \<Rightarrow>
          (case run_command orc (str_path py # args) s of
             (None, s') \<Rightarrow> (None, s')
           | (Some e, s') \<Rightarrow> (Some InstallationError, s')))"

definition upgrade_pip :: "install_oracle \<Rightarrow> path \<Rightarrow> install_state
     \<Rightarrow> py_exc option \<times> install_state" where
  "upgrade_pip orc proj s = venv_command orc proj [''-m'', ''pip'', ''install'', ''--upgrade'', ''pip''] s"

definition dependencies :: "string list" where
  "dependencies =
     [''jupyter-kernel-client>=0.7.3'',
      ''jupyter-nbmodel-client>=0.13.5'',
      ''mcp[cli]>=1.10.1'',
      ''pydantic'',
      ''uvicorn'',
      ''click'',
      ''fastapi'',
      ''ipykernel'',
      ''jupyter_server>=1.6,<3'',
      ''jupyterlab==4.4.1'',
      ''jupyter-collaboration==4.0.2'',
      ''datalayer_pycrdt==0.12.17'',
      ''jupyter_mcp_server'',
      ''psutil>=5.0.0'']"

fun install_each :: "install_oracle \<Rightarrow> string \<Rightarrow> string list \<Rightarrow> install_state
     \<Rightarrow> py_exc option \<times> install_state" where
  "install_each orc py [] s = (None, s)"
| "install_each orc py (dep # deps) s =
     (case run_command orc [py, ''-m'', ''pip'', ''install'', dep] s of
        (Some e, s') \<Rightarrow> (Some InstallationError, s')
      | (None, s') \<Rightarrow> install_each orc py deps s')"

text \<open>The interpreter is looked up once, before the loop over the dependencies.\<close>

definition install_dependencies :: "install_oracle \<Rightarrow> path \<Rightarrow> install_state
     \<Rightarrow> py_exc option \<times> install_state" where
  "install_dependencies orc proj s =
     (case get_virtual_env_python (bin_python_exists (fst s)) (bin_python_executable (fst s)) proj of
        Inl e \<Rightarrow> (Some InstallationError, s)
      | Inr py \<Rightarrow> install_each orc (str_path py) dependencies s)"

definition package_check :: "string" where
  "package_check =
     ''import jupyter_mcp_server; print('' @ [CHR 0x27] @ ''Package import: OK'' @ [CHR 0x27] @ '')''"

definition validate_installation :: "install_oracle \<Rightarrow> path \<Rightarrow> install_state
     \<Rightarrow> py_exc option \<times> install_state" where
  "validate_installation orc proj s =
     (case get_virtual_env_python (bin_python_exists (fst s)) (bin_python_executable (fst s)) proj of
        Inl e \<Rightarrow> (Some InstallationError, s)
      | Inr py \<Rightarrow>
          (case run_command orc [str_path py, ''-c'', package_check] s of
             (Some e, s') \<Rightarrow> (Some InstallationError, s')
           | (None, s') \<Rightarrow>
               (case run_command orc [str_path py, ''-m'', ''jupyter_mcp_server'', ''--help''] s' of
                  (Some e, s'') \<Rightarrow> (Some InstallationError, s'')
                | (None, s'') \<Rightarrow> (None, s''))))"

text \<open>\<open>JupyterMCPInstaller.install\<close>: the existing installation is checked only when
  \<open>force_reinstall\<close> is false.\<close>

definition install :: "install_oracle \<Rightarrow> path \<Rightarrow> bool \<Rightarrow> install_state
     \<Rightarrow> (py_exc + bool) \<times> install_state" where
  "install orc proj force_reinstall s =
     (if \<not> python_version_ok orc then (Inl InstallationError, s)
      else
        (let (existing, s0) =
               (if force_reinstall then (False, s) else check_existing_installation orc proj s)
         in if existing then (Inr True, s0)
            else case create_virtual_environment orc proj s0 of
                   (Some e, s1) \<Rightarrow> (Inl e, s1)
                 | (None, s1) \<Rightarrow>
                     (case upgrade_pip orc proj s1 of
                        (Some e, s2) \<Rightarrow> (Inl e, s2)
                      | (None, s2) \<Rightarrow>
                          (case install_dependencies orc proj s2 of
                             (Some e, s3) \<Rightarrow> (Inl e, s3)
                           | (None, s3) \<Rightarrow>
                               (case validate_installation orc proj s3 of
                                  (Some e, s4) \<Rightarrow> (Inl e, s4)
                                | (None, s4) \<Rightarrow> (Inr True, s4))))))"

text \<open>An effect that removes, creates or installs: everything but the smoke import of
  \<open>check_existing_installation\<close>.\<close>

fun destructive :: "effect \<Rightarrow> bool" where
  "destructive (Rmtree p) = True"
| "destructive (VenvCreate p) = True"
| "destructive (RunCommand cmd) = (''pip'' \<in> set cmd)"

section \<open>Reading the trace\<close>

fun is_teardown :: "event \<Rightarrow> bool" where
  "is_teardown (Terminate r) = True"
| "is_teardown (Wait r) = True"
| "is_teardown (Kill r) = True"
| "is_teardown (Unlink p) = True"
| "is_teardown LogError = True"
| "is_teardown e = False"

fun is_facts :: "event \<Rightarrow> bool" where
  "is_facts (FactsExtracted port tok) = (port > 0 \<and> tok \<noteq> [])"
| "is_facts e = False"

fun is_bridge_launch :: "event \<Rightarrow> bool" where
  "is_bridge_launch (Launched r cmd) = (r = Bridge)"
| "is_bridge_launch e = False"

fun is_bridge_running :: "event \<Rightarrow> bool" where
  "is_bridge_running (ConfirmedRunning r) = (r = Bridge)"
| "is_bridge_running e = False"

fun is_discovery_written :: "event \<Rightarrow> bool" where
  "is_discovery_written (DiscoveryWritten p) = True"
| "is_discovery_written e = False"

text \<open>No \<open>B\<close> event happens before the first \<open>A\<close> event.\<close>

fun never_before :: "(event \<Rightarrow> bool) \<Rightarrow> (event \<Rightarrow> bool) \<Rightarrow> event list \<Rightarrow> bool" where
  "never_before A B [] = True"
| "never_before A B (e # es) = (if A e then True else (\<not> B e \<and> never_before A B es))"

text \<open>The events the two startup phases can leave in the trace.\<close>

definition facts_known :: "event list \<Rightarrow> bool" where
  "facts_known es =
     (\<exists>cmd port tok. 0 < port \<and> tok \<noteq> []
        \<and> es = [Launched Interactive cmd, FactsExtracted port tok])"

definition interactive_events :: "event list \<Rightarrow> bool" where
  "interactive_events es = (es = [] \<or> (\<exists>cmd. es = [Launched Interactive cmd]) \<or> facts_known es)"

definition bridge_confirmed :: "event list \<Rightarrow> bool" where
  "bridge_confirmed es = (\<exists>cmd. es = [Launched Bridge cmd, ConfirmedRunning Bridge])"

definition bridge_events :: "event list \<Rightarrow> bool" where
  "bridge_events es = (es = [] \<or> (\<exists>cmd. es = [Launched Bridge cmd]) \<or> bridge_confirmed es)"

text \<open>
  The events the configuration phase can leave, with what they mean for the settings
  file at \<open>pc\<close> when it is another file than the discovery document at \<open>mp\<close>:
  without a \<open>SettingsWritten\<close> event the file is as before, with one it holds the
  updated settings.
\<close>

definition config_events :: "path \<Rightarrow> path \<Rightarrow> filesystem \<Rightarrow> filesystem \<Rightarrow> event list \<Rightarrow> bool" where
  "config_events mp pc fs fs' es =
     (((es = [] \<or> es = [DiscoveryWritten mp] \<or> es = [DiscoveryWritten mp, LogError])
        \<and> (mp \<noteq> pc \<longrightarrow> fs' pc = fs pc))
      \<or> (es = [DiscoveryWritten mp, SettingsWritten pc]
          \<and> (mp \<noteq> pc \<longrightarrow>
                (\<exists>s. update_enabled_mcp_servers ''jupyter''
                        (load_existing_claude_settings fs pc) = Inr s
                    \<and> fs' pc = Some (Doc s)))))"

text \<open>
  The trace between two states of a run is made of four parts: what the start of the
  interactive server left, what the start of the bridge left, what the configuration
  phase left and what teardown left. A later part is non-empty only when the phase
  before it succeeded.
\<close>

definition run_events :: "run_state \<Rightarrow> run_state \<Rightarrow> event list \<Rightarrow> event list
     \<Rightarrow> event list \<Rightarrow> event list \<Rightarrow> bool" where
  "run_events rs rs' e1 e2 e3 e4 =
     (trace rs' = trace rs @ e1 @ e2 @ e3 @ e4
      \<and> interactive_events e1 \<and> bridge_events e2
      \<and> (e2 \<noteq> [] \<longrightarrow> facts_known e1) \<and> (e3 \<noteq> [] \<longrightarrow> bridge_confirmed e2)
      \<and> list_all is_teardown e4
      \<and> config_events (mcp_config_path (obj rs)) (get_claude_config_path (project_dir (obj rs)))
           (files rs) (files rs') e3)"

text \<open>The Python test \<open>server_name in settings["enabledMcpjsonServers"]\<close>, false where it
  would raise.\<close>

definition enabled_in :: "string \<Rightarrow> json \<Rightarrow> bool" where
  "enabled_in server_name settings =
     (case settings of
        JObj kvs \<Rightarrow>
          (case map_of kvs ''enabledMcpjsonServers'' of
             Some (JArr xs) \<Rightarrow> JStr server_name \<in> set xs
           | Some (JStr s) \<Rightarrow> is_substring server_name s
           | Some (JObj m) \<Rightarrow> server_name \<in> fst ` set m
           | _ \<Rightarrow> False)
      | _ \<Rightarrow> False)"

text \<open>The attributes of the setup object that are set by the constructor and never
  assigned again.\<close>

definition same_config :: "setup_state \<Rightarrow> setup_state \<Rightarrow> bool" where
  "same_config st st' =
     (project_dir st' = project_dir st \<and> notebook_path st' = notebook_path st
      \<and> mcp_config_path st' = mcp_config_path st \<and> claude_config st' = claude_config st
      \<and> cleanup_on_exit st' = cleanup_on_exit st)"

text \<open>\<open>PathManager.resolve_configuration_paths\<close> on the resolved output directory; the
  constructor stores the first path as \<open>mcp_config_path\<close>.\<close>

definition resolve_configuration_paths :: "path \<Rightarrow> path \<times> path" where
  "resolve_configuration_paths output_path =
     (output_path @ [''.mcp.json''], output_path @ [''settings.local.json''])"

section \<open>A concrete run\<close>

text \<open>A freshly constructed setup object, for the concrete runs below.\<close>

definition st0 :: setup_state where
  "st0 = \<lparr>custom_port = None, custom_token = None, cleanup_on_exit = True, claude_config = True,
      project_dir = [''home'', ''u''], notebook_path = [''home'', ''u'', ''nb.ipynb''],
      mcp_config_path = [''home'', ''u'', ''.mcp.json''], jupyter_process = None, mcp_process = None,
      jupyter_port = None, jupyter_token = None, jupyter_url = None, validated_env = []\<rparr>"

text \<open>A stand-in for \<open>urlparse\<close> that knows the one URL of the concrete run.\<close>

definition urlparse0 :: urlparser where
  "urlparse0 url =
     (if url = ''http://localhost:8888'' then Some (''http'', ''localhost:8888'') else None)"

text \<open>
  The tool runs under \<open>/usr/bin/python3\<close> in the project \<open>/home/u\<close>; the server prints
  its URL at once, both processes start, and after one quiet turn of monitoring
  SIGINT (signal 2) arrives. Every process exits on \<open>terminate()\<close>.
\<close>

definition w0 :: world where
  "w0 = \<lparr>urlparse = urlparse0, sys_executable = ''/usr/bin/python3'',
      venv_python_exists = True, venv_python_executable = True,
      jupyter_popen_ok = True,
      jupyter_output = [ReadLine ''[I] http://localhost:8888/lab?token=abcdef0123456789''],
      mcp_popen_ok = True, mcp_alive_after_delay = True, mcp_config_writable = True,
      claude_dir_ok = True, claude_settings_writable = True,
      monitor_ticks = [Alive, Signal 2],
      stop_of = (\<lambda>r k. ExitsOnTerminate), unlink_ok = True\<rparr>"

text \<open>The settings file exists and holds \<open>{"theme": "dark"}\<close>; nothing else is on disk.\<close>

definition fs0 :: filesystem where
  "fs0 = Map.empty([''home'', ''u'', ''.claude'', ''settings.local.json'']
           \<mapsto> Doc (JObj [(''theme'', JStr ''dark'')]))"

definition rs0 :: run_state where
  "rs0 = \<lparr>obj = st0, files = fs0, trace = []\<rparr>"

text \<open>The setup object once the facts are scraped, and once both processes run and the
  discovery document is on disk.\<close>

definition st_facts :: setup_state where
  "st_facts = st0\<lparr>jupyter_port := Some 8888, jupyter_token := Some ''abcdef0123456789'',
      jupyter_url := Some ''http://localhost:8888''\<rparr>"

definition rs_facts :: run_state where
  "rs_facts = \<lparr>obj = st_facts, files = fs0, trace = []\<rparr>"

definition rs_running :: run_state where
  "rs_running =
     \<lparr>obj = st_facts\<lparr>jupyter_process := Some (Popen [''jupyter'']),
                       mcp_process := Some (Popen [''jupyter_mcp_server''])\<rparr>,
      files = fs0([''home'', ''u'', ''.mcp.json''] \<mapsto> Doc (JObj [])),
      trace = []\<rparr>"

text \<open>A world in which the bridge ignores \<open>terminate()\<close> and \<open>kill()\<close> raises.\<close>

definition w_stuck :: world where
  "w_stuck = w0\<lparr>stop_of := (\<lambda>r k. if r = Bridge then KillRaises else ExitsOnTerminate)\<rparr>"

text \<open>A valid environment on disk, and an oracle under which every command succeeds.\<close>

definition env_valid :: install_env where
  "env_valid = \<lparr>venv_exists = True, bin_python_exists = True,
      bin_activate_exists = True, bin_python_executable = True\<rparr>"

definition orc_ok :: install_oracle where
  "orc_ok = \<lparr>python_version_ok = True, command_ok = (\<lambda>k cmd. True),
      rmtree_ok = True, venv_create_ok = True\<rparr>"

text \<open>The states of the concrete run after each of its three startup phases.\<close>

definition cmd_interactive :: "string list" where
  "cmd_interactive =
     [''/home/u/jupyter-mcp-env/bin/python'', ''-m'', ''jupyter'', ''lab'', ''--port'', ''0'',
      ''--no-browser'', ''--allow-root'', ''--notebook-dir=/home/u'']"

definition cmd_bridge :: "string list" where
  "cmd_bridge = [''/home/u/jupyter-mcp-env/bin/python'', ''-m'', ''jupyter_mcp_server'']"

definition env0 :: "(string \<times> string) list" where
  "env0 = env_vars_of ''http://localhost:8888'' ''abcdef0123456789'' ''nb.ipynb''"

definition rs1c :: run_state where
  "rs1c = \<lparr>obj = st_facts\<lparr>jupyter_process := Some (Popen cmd_interactive)\<rparr>,
      files = fs0,
      trace = [Launched Interactive cmd_interactive, FactsExtracted 8888 ''abcdef0123456789'']\<rparr>"

definition rs2c :: run_state where
  "rs2c = \<lparr>obj = st_facts\<lparr>jupyter_process := Some (Popen cmd_interactive),
                           mcp_process := Some (Popen cmd_bridge), validated_env := env0\<rparr>,
      files = fs0,
      trace = [Launched Interactive cmd_interactive, FactsExtracted 8888 ''abcdef0123456789'',
               Launched Bridge cmd_bridge, ConfirmedRunning Bridge]\<rparr>"

definition rs3c :: run_state where
  "rs3c = \<lparr>obj = st_facts\<lparr>jupyter_process := Some (Popen cmd_interactive),
                           mcp_process := Some (Popen cmd_bridge), validated_env := env0\<rparr>,
      files = fs0([''home'', ''u'', ''.mcp.json''] \<mapsto> Doc (mcp_config ''/usr/bin/python3'' env0),
                  [''home'', ''u'', ''.claude'', ''settings.local.json''] \<mapsto>
                    Doc (JObj [(''theme'', JStr ''dark''),
                               (''enabledMcpjsonServers'', JArr [JStr ''jupyter''])])),
      trace = [Launched Interactive cmd_interactive, FactsExtracted 8888 ''abcdef0123456789'',
               Launched Bridge cmd_bridge, ConfirmedRunning Bridge,
               DiscoveryWritten [''home'', ''u'', ''.mcp.json''],
               SettingsWritten [''home'', ''u'', ''.claude'', ''settings.local.json'']]\<rparr>"

section \<open>Properties of the output scraper\<close>

lemma strip_prefix_iff: "strip_prefix p s = Some r \<longleftrightarrow> s = p @ r"
  by (induction p s rule: strip_prefix.induct) auto

lemma strip_prefix_append: "strip_prefix p (p @ r) = Some r"
  by (simp add: strip_prefix_iff)

lemma find_all_iff:
  "i \<in> set (find_all w s) \<longleftrightarrow> i \<le> length s \<and> strip_prefix w (drop i s) \<noteq> None"
proof (induction s arbitrary: i)
  case Nil
  then show ?case by (cases w) auto
next
  case (Cons c cs)
  show ?case
  proof (cases i)
    case 0
    then show ?thesis by auto
  next
    case (Suc j)
    then show ?thesis using Cons.IH [of j] by auto
  qed
qed

lemma match_at_needs_scheme:
  assumes "p \<in> set patterns" and "match_at p s \<noteq> None"
  shows "strip_prefix ''http://'' s \<noteq> None"
proof -
  from assms(2) obtain r where r: "strip_prefix (fst p) s = Some r"
    by (auto simp: match_at_def split: option.splits)
  then have "s = fst p @ r" by (simp add: strip_prefix_iff)
  moreover from assms(1) obtain t where "fst p = ''http://'' @ t"
    by (auto simp: patterns_def)
  ultimately have "s = ''http://'' @ (t @ r)" by simp
  then show ?thesis by (metis strip_prefix_append option.distinct(1))
qed

lemma re_search_None:
  "(\<And>i. i \<le> length s \<Longrightarrow> match_at p (drop i s) = None) \<Longrightarrow> re_search p s = None"
proof (induction s)
  case Nil
  then show ?case using Nil [of 0] by simp
next
  case (Cons c cs)
  have "match_at p (c # cs) = None" using Cons.prems [of 0] by simp
  moreover have "re_search p cs = None"
  proof (rule Cons.IH)
    fix i assume "i \<le> length cs"
    then show "match_at p (drop i cs) = None" using Cons.prems [of "Suc i"] by simp
  qed
  ultimately show ?case by simp
qed

lemma re_search_unique:
  "k \<le> length s \<Longrightarrow> (\<And>i. i \<le> length s \<Longrightarrow> i \<noteq> k \<Longrightarrow> match_at p (drop i s) = None)
    \<Longrightarrow> re_search p s = match_at p (drop k s)"
proof (induction s arbitrary: k)
  case Nil
  then show ?case by simp
next
  case (Cons c cs)
  show ?case
  proof (cases k)
    case 0
    show ?thesis
    proof (cases "match_at p (c # cs)")
      case None
      have "re_search p cs = None"
      proof (rule re_search_None)
        fix i assume "i \<le> length cs"
        then show "match_at p (drop i cs) = None"
          using Cons.prems(2) [of "Suc i"] 0 by simp
      qed
      with None 0 show ?thesis by simp
    next
      case (Some m)
      with 0 show ?thesis by simp
    qed
  next
    case (Suc j)
    have none0: "match_at p (c # cs) = None"
      using Cons.prems(2) [of 0] Suc by simp
    have "re_search p cs = match_at p (drop j cs)"
    proof (rule Cons.IH)
      show "j \<le> length cs" using Cons.prems(1) Suc by simp
    next
      fix i assume "i \<le> length cs" "i \<noteq> j"
      then show "match_at p (drop i cs) = None"
        using Cons.prems(2) [of "Suc i"] Suc by simp
    qed
    with none0 Suc show ?thesis by simp
  qed
qed

lemma takeWhile_run:
  "\<forall>c\<in>set xs. P c \<Longrightarrow> ys = [] \<or> \<not> P (hd ys) \<Longrightarrow> takeWhile P (xs @ ys) = xs"
  by (cases ys) (auto simp: takeWhile_append2)

lemma dropWhile_run:
  "\<forall>c\<in>set xs. P c \<Longrightarrow> ys = [] \<or> \<not> P (hd ys) \<Longrightarrow> dropWhile P (xs @ ys) = ys"
  by (cases ys) (auto simp: dropWhile_append2)

lemma match_at_shape:
  assumes "ds \<noteq> []" "\<forall>c\<in>set ds. is_digit c" "tok \<noteq> []" "\<forall>c\<in>set tok. is_hex c"
    and "post = [] \<or> \<not> is_hex (hd post)"
    and "l2 \<noteq> []" "\<not> is_digit (hd l2)"
  shows "match_at (l1, l2') (l1 @ ds @ l2 @ tok @ post) =
           (if l2' = l2 then Some (ds, tok) else
            case strip_prefix l2' (l2 @ tok @ post) of None \<Rightarrow> None
            | Some r' \<Rightarrow> (let g2 = takeWhile is_hex r' in if g2 = [] then None else Some (ds, g2)))"
proof -
  have t: "takeWhile is_digit (ds @ l2 @ tok @ post) = ds"
    using assms by (intro takeWhile_run) auto
  have d: "dropWhile is_digit (ds @ l2 @ tok @ post) = l2 @ tok @ post"
    using assms by (intro dropWhile_run) auto
  have h: "takeWhile is_hex (tok @ post) = tok"
    using assms by (intro takeWhile_run) auto
  show ?thesis
    using assms(1,3) by (simp add: match_at_def strip_prefix_append t d h)
qed

lemma match_at_same_host:
  assumes "ds \<noteq> []" "\<forall>c\<in>set ds. is_digit c" "tok \<noteq> []" "\<forall>c\<in>set tok. is_hex c"
    and "post = [] \<or> \<not> is_hex (hd post)"
    and seg: "seg = ''/lab'' \<or> seg = ''/''"
    and l2': "l2' = ''/lab?token='' \<or> l2' = ''/?token=''"
  shows "match_at (l1, l2') (l1 @ ds @ (seg @ ''?token='') @ tok @ post) =
           (if l2' = seg @ ''?token='' then Some (ds, tok) else None)"
proof -
  have ne: "seg @ ''?token='' \<noteq> []" by simp
  have nd: "\<not> is_digit (hd (seg @ ''?token=''))"
    using seg by (cases "seg = ''/lab''") (simp_all add: is_digit_def)
  note sh = match_at_shape [OF assms(1-5) ne nd, of l1 l2']
  show ?thesis
  proof (cases "l2' = seg @ ''?token=''")
    case True
    with sh show ?thesis by simp
  next
    case False
    have "strip_prefix l2' ((seg @ ''?token='') @ tok @ post) = None"
    proof (cases "seg = ''/lab''")
      case True
      with False l2' have "l2' = ''/?token=''" by auto
      with True show ?thesis by simp
    next
      case no: False
      with seg have s: "seg = ''/''" by simp
      with False l2' have "l2' = ''/lab?token=''" by auto
      with s show ?thesis by simp
    qed
    with sh False show ?thesis by simp
  qed
qed


lemma match_at_no_prefix: "strip_prefix (fst p) s = None \<Longrightarrow> match_at p s = None"
  by (simp add: match_at_def)

lemma match_at_url:
  assumes "ds \<noteq> []" "\<forall>c\<in>set ds. is_digit c" "tok \<noteq> []" "\<forall>c\<in>set tok. is_hex c"
    and "post = [] \<or> \<not> is_hex (hd post)"
    and host: "host = ''localhost'' \<or> host = ''127.0.0.1''"
    and seg: "seg = ''/lab'' \<or> seg = ''/''"
    and p: "p \<in> set patterns"
  shows "match_at p (''http://'' @ host @ '':'' @ ds @ seg @ ''?token='' @ tok @ post) =
           (if p = (''http://'' @ host @ '':'', seg @ ''?token='') then Some (ds, tok) else None)"
proof -
  obtain l1' l2' where pp: "p = (l1', l2')" by (cases p)
  from p pp have l1': "l1' = ''http://localhost:'' \<or> l1' = ''http://127.0.0.1:''"
    and l2': "l2' = ''/lab?token='' \<or> l2' = ''/?token=''"
    by (auto simp: patterns_def)
  define l1 where "l1 = ''http://'' @ host @ '':''"
  have url: "''http://'' @ host @ '':'' @ ds @ seg @ ''?token='' @ tok @ post =
             l1 @ ds @ (seg @ ''?token='') @ tok @ post"
    by (simp add: l1_def)
  show ?thesis
  proof (cases "l1' = l1")
    case True
    then show ?thesis
      using match_at_same_host [OF assms(1-5) seg l2', of l1]
      by (simp only: url pp l1_def [symmetric] prod.inject simp_thms)
  next
    case False
    have "strip_prefix l1' (l1 @ ds @ (seg @ ''?token='') @ tok @ post) = None"
    proof (cases "host = ''localhost''")
      case True
      with False l1' have "l1' = ''http://127.0.0.1:''" by (auto simp: l1_def)
      with True show ?thesis by (simp add: l1_def)
    next
      case no: False
      with host have h: "host = ''127.0.0.1''" by simp
      with False l1' have "l1' = ''http://localhost:''" by (auto simp: l1_def)
      with h show ?thesis by (simp add: l1_def)
    qed
    then have "match_at p (l1 @ ds @ (seg @ ''?token='') @ tok @ post) = None"
      by (simp add: match_at_no_prefix pp)
    with False show ?thesis
      by (simp only: url pp l1_def [symmetric] prod.inject simp_thms if_False)
  qed
qed


lemma re_search_line:
  assumes p: "p \<in> set patterns"
    and uniq: "find_all ''http://'' (pre @ url) = [length pre]"
  shows "re_search p (pre @ url) = match_at p url"
proof -
  have "re_search p (pre @ url) = match_at p (drop (length pre) (pre @ url))"
  proof (rule re_search_unique)
    show "length pre \<le> length (pre @ url)" by simp
  next
    fix i assume i: "i \<le> length (pre @ url)" "i \<noteq> length pre"
    show "match_at p (drop i (pre @ url)) = None"
    proof (rule ccontr)
      assume "match_at p (drop i (pre @ url)) \<noteq> None"
      then have "strip_prefix ''http://'' (drop i (pre @ url)) \<noteq> None"
        using p by (rule match_at_needs_scheme [rotated])
      with i(1) have "i \<in> set (find_all ''http://'' (pre @ url))"
        by (simp only: find_all_iff) simp
      with uniq i(2) show False by simp
    qed
  qed
  then show ?thesis by simp
qed

lemma try_patterns_single:
  assumes "\<And>p. p \<in> set ps \<Longrightarrow> re_search p line = (if p = pk then Some (g1, g2) else None)"
  shows "try_patterns ps line =
           (if pk \<in> set ps \<and> py_int g1 > 0 then Some (py_int g1, g2) else None)"
  using assms
proof (induction ps)
  case Nil
  then show ?case by simp
next
  case (Cons q qs)
  have q: "re_search q line = (if q = pk then Some (g1, g2) else None)"
    using Cons.prems [of q] by simp
  have ih: "try_patterns qs line =
              (if pk \<in> set qs \<and> py_int g1 > 0 then Some (py_int g1, g2) else None)"
    using Cons.IH Cons.prems by simp
  show ?case
  proof (cases "q = pk")
    case True
    with q ih show ?thesis by (simp add: Let_def)
  next
    case False
    with q ih show ?thesis by auto
  qed
qed

text \<open>
  Claim C1, as the code has it. A line that embeds one URL of the four shapes (host
  \<open>localhost\<close> or \<open>127.0.0.1\<close>, path segment \<open>/lab\<close> or \<open>/\<close>, then \<open>?token=\<close> and a
  lowercase-hex token), in which \<open>http://\<close> occurs nowhere else and no hex digit
  follows the token, is scraped successfully exactly when the embedded port is
  positive: the port and the token are the embedded ones and the base URL is
  \<open>http://localhost:<port>\<close>, whichever host the line names. With port 0 nothing
  matches and the state is unchanged.
\<close>

theorem extract_embedded_url:
  assumes host: "host = ''localhost'' \<or> host = ''127.0.0.1''"
    and seg: "seg = ''/lab'' \<or> seg = ''/''"
    and ds: "ds \<noteq> []" "\<forall>c\<in>set ds. is_digit c"
    and tok: "tok \<noteq> []" "\<forall>c\<in>set tok. is_hex c"
    and post: "post = [] \<or> \<not> is_hex (hd post)"
    and line: "line = pre @ ''http://'' @ host @ '':'' @ ds @ seg @ ''?token='' @ tok @ post"
    and uniq: "find_all ''http://'' line = [length pre]"
  shows "extract_jupyter_details st line =
           (if py_int ds > 0
            then (True, st\<lparr>jupyter_port := Some (py_int ds),
                            jupyter_token := Some tok,
                            jupyter_url := Some (''http://localhost:'' @ str_int (py_int ds))\<rparr>)
            else (False, st))"
proof -
  define url where "url = ''http://'' @ host @ '':'' @ ds @ seg @ ''?token='' @ tok @ post"
  define pk where "pk = (''http://'' @ host @ '':'', seg @ ''?token='')"
  have l: "line = pre @ url" by (simp add: line url_def)
  have rs: "re_search p line = (if p = pk then Some (ds, tok) else None)"
    if "p \<in> set patterns" for p
  proof -
    have "re_search p line = match_at p url"
      using re_search_line [OF that, of pre url] uniq by (simp only: l)
    also have "\<dots> = (if p = pk then Some (ds, tok) else None)"
      unfolding url_def pk_def by (rule match_at_url [OF ds tok post host seg that])
    finally show ?thesis .
  qed
  have pk: "pk \<in> set patterns"
    using host seg by (auto simp: pk_def patterns_def)
  have "try_patterns patterns line = (if py_int ds > 0 then Some (py_int ds, tok) else None)"
    using try_patterns_single [of patterns line pk ds tok, OF rs] pk by simp
  then show ?thesis by (simp add: extract_jupyter_details_def)
qed

theorem extract_embedded_url_witness:
  "extract_jupyter_details st0 ''[I] http://127.0.0.1:8888/lab?token=abcdef0123456789'' =
     (True, st0\<lparr>jupyter_port := Some 8888, jupyter_token := Some ''abcdef0123456789'',
                 jupyter_url := Some ''http://localhost:8888''\<rparr>)
   \<and> extract_jupyter_details st0 ''http://localhost:0/?token=0a'' = (False, st0)"
  using extract_embedded_url [of "''127.0.0.1''" "''/lab''" "''8888''" "''abcdef0123456789''" "[]"
      "''[I] http://127.0.0.1:8888/lab?token=abcdef0123456789''" "''[I] ''" st0]
    extract_embedded_url [of "''localhost''" "''/''" "''0''" "''0a''" "[]"
      "''http://localhost:0/?token=0a''" "[]" st0]
  by (simp add: is_digit_def is_hex_def py_int_def digit_val_def str_int_def)

text \<open>
  The claim as written asks for the host of the line in the base URL. For a line that
  names \<open>127.0.0.1\<close> the stored URL is not \<open>http://127.0.0.1:8888\<close>.
\<close>

theorem extract_base_url_counterexample:
  "jupyter_url (snd (extract_jupyter_details st0
       ''http://127.0.0.1:8888/lab?token=abcdef0123456789'')) \<noteq> Some ''http://127.0.0.1:8888''"
  by (simp add: extract_jupyter_details_def patterns_def match_at_def is_digit_def is_hex_def
        py_int_def digit_val_def str_int_def)

section \<open>Properties of the environment builder\<close>

lemma create_env_invalid_token:
  "\<not> validate_token tok \<Longrightarrow>
     create_jupyter_environment up st url tok nb = (Inl ServerSetupError, st)"
  by (simp add: create_jupyter_environment_def)

lemma create_env_ok:
  assumes "validate_url up url" "validate_token tok" "url \<noteq> []" "nb \<noteq> []"
  shows "create_jupyter_environment up st url tok nb =
           (Inr (env_vars_of url tok nb), st\<lparr>validated_env := env_vars_of url tok nb\<rparr>)"
proof -
  from assms(2) have "tok \<noteq> []" by (auto simp: validate_token_def)
  with assms show ?thesis
    by (simp add: create_jupyter_environment_def env_vars_of_def Let_def)
qed

text \<open>The tokens that the claim names are rejected, but for one case: hex digits
  followed by a single newline.\<close>

lemma validate_token_rejects:
  assumes "tok = [] \<or> length tok < 8
           \<or> (\<not> list_all is_hex tok \<and> \<not> (list_all is_hex (butlast tok) \<and> last tok = CHR 0x0A))"
  shows "\<not> validate_token tok"
proof -
  have "\<not> re_match_hex tok"
    if "\<not> list_all is_hex tok" "\<not> (list_all is_hex (butlast tok) \<and> last tok = CHR 0x0A)"
  proof
    assume m: "re_match_hex tok"
    have split: "tok = takeWhile is_hex tok @ dropWhile is_hex tok" by simp
    from m have "dropWhile is_hex tok = [] \<or> dropWhile is_hex tok = [CHR 0x0A]"
      by (simp add: re_match_hex_def Let_def)
    then show False
    proof
      assume "dropWhile is_hex tok = []"
      then have "list_all is_hex tok" by (simp add: list_all_iff dropWhile_eq_Nil_conv)
      with that(1) show False by simp
    next
      assume d: "dropWhile is_hex tok = [CHR 0x0A]"
      with split have t: "tok = takeWhile is_hex tok @ [CHR 0x0A]" by simp
      then have "butlast tok = takeWhile is_hex tok" "last tok = CHR 0x0A"
        by (metis butlast_snoc, metis last_snoc)
      moreover have "list_all is_hex (takeWhile is_hex tok)"
        by (simp add: list_all_iff) (meson set_takeWhileD)
      ultimately show False using that(2) by simp
    qed
  qed
  with assms show ?thesis by (auto simp: validate_token_def)
qed

text \<open>
  Claim C2 at the input where the code departs from it: the token \<open>abcdef01\<close> followed
  by a newline contains a character that is no hex digit, and the environment is
  built all the same.
\<close>

theorem token_newline_accepted:
  "fst (create_jupyter_environment urlparse0 st0 ''http://localhost:8888''
          (''abcdef01'' @ [CHR 0x0A]) ''nb.ipynb'')
     = Inr (env_vars_of ''http://localhost:8888'' (''abcdef01'' @ [CHR 0x0A]) ''nb.ipynb'')
   \<and> \<not> list_all is_hex (''abcdef01'' @ [CHR 0x0A])"
  by (simp add: create_jupyter_environment_def validate_url_def urlparse0_def validate_token_def
        re_match_hex_def is_hex_def env_vars_of_def Let_def)

section \<open>Properties of the client-integration settings\<close>

lemma dict_set_absent: "k \<notin> fst ` set kvs \<Longrightarrow> dict_set k v kvs = kvs @ [(k, v)]"
  by (induction kvs) auto

lemma dict_set_last: "k \<notin> fst ` set kvs \<Longrightarrow> dict_set k v (kvs @ [(k, u)]) = kvs @ [(k, v)]"
  by (induction kvs) auto

lemma map_of_snoc: "k \<notin> fst ` set kvs \<Longrightarrow> map_of (kvs @ [(k, v)]) k = Some v"
  by (induction kvs) (auto simp del: map_of_append)

lemma update_adds_key:
  assumes "''enabledMcpjsonServers'' \<notin> fst ` set kvs"
  shows "update_enabled_mcp_servers nm (JObj kvs) =
           Inr (JObj (kvs @ [(''enabledMcpjsonServers'', JArr [JStr nm])]))"
  using assms by (simp add: dict_set_absent dict_set_last map_of_snoc Let_def del: map_of_append)

lemma update_again:
  assumes "''enabledMcpjsonServers'' \<notin> fst ` set kvs"
  shows "update_enabled_mcp_servers nm (JObj (kvs @ [(''enabledMcpjsonServers'', JArr [JStr nm])])) =
           Inr (JObj (kvs @ [(''enabledMcpjsonServers'', JArr [JStr nm])]))"
  using assms by (simp add: map_of_snoc Let_def del: map_of_append)

lemma generate_claude_settings_ok:
  assumes "claude_dir_ok w" "claude_settings_writable w"
    and "update_enabled_mcp_servers nm
           (load_existing_claude_settings (files rs) (get_claude_config_path (project_dir (obj rs))))
         = Inr s"
  shows "generate_claude_settings w nm rs =
           (True, rs\<lparr>files := (files rs)(get_claude_config_path (project_dir (obj rs)) \<mapsto> Doc s),
                     trace := trace rs @ [SettingsWritten (get_claude_config_path (project_dir (obj rs)))]\<rparr>)"
  using assms by (simp add: generate_claude_settings_def write_json_states_def emit_def Let_def)

text \<open>
  Claim C5. A settings document with any top-level keys but \<open>enabledMcpjsonServers\<close>
  is rewritten as the same members followed by \<open>enabledMcpjsonServers: [name]\<close>, no
  other file changes, and a second write with the same name leaves the files as the
  first write left them.
\<close>

theorem client_integration_write_idempotent:
  assumes "''enabledMcpjsonServers'' \<notin> fst ` set kvs"
    and "files rs (get_claude_config_path (project_dir (obj rs))) = Some (Doc (JObj kvs))"
    and "claude_dir_ok w" "claude_settings_writable w"
  shows "fst (generate_claude_settings w nm rs) = True
    \<and> files (snd (generate_claude_settings w nm rs)) =
        (files rs)(get_claude_config_path (project_dir (obj rs)) \<mapsto>
           Doc (JObj (kvs @ [(''enabledMcpjsonServers'', JArr [JStr nm])])))
    \<and> fst (generate_claude_settings w nm (snd (generate_claude_settings w nm rs))) = True
    \<and> files (snd (generate_claude_settings w nm (snd (generate_claude_settings w nm rs)))) =
        files (snd (generate_claude_settings w nm rs))"
proof -
  let ?p = "get_claude_config_path (project_dir (obj rs))"
  let ?d = "JObj (kvs @ [(''enabledMcpjsonServers'', JArr [JStr nm])])"
  let ?rs1 = "rs\<lparr>files := (files rs)(?p \<mapsto> Doc ?d), trace := trace rs @ [SettingsWritten ?p]\<rparr>"
  have first: "generate_claude_settings w nm rs = (True, ?rs1)"
    using assms update_adds_key [OF assms(1), of nm]
    by (intro generate_claude_settings_ok) (simp_all add: load_existing_claude_settings_def)
  have "generate_claude_settings w nm ?rs1 =
          (True, ?rs1\<lparr>files := (files ?rs1)(get_claude_config_path (project_dir (obj ?rs1)) \<mapsto> Doc ?d),
                       trace := trace ?rs1 @ [SettingsWritten (get_claude_config_path (project_dir (obj ?rs1)))]\<rparr>)"
    using assms update_again [OF assms(1), of nm]
    by (intro generate_claude_settings_ok) (simp_all add: load_existing_claude_settings_def)
  with first show ?thesis by simp
qed

theorem client_integration_write_witness:
  "files (snd (generate_claude_settings w0 ''jupyter'' rs0))
       [''home'', ''u'', ''.claude'', ''settings.local.json''] =
     Some (Doc (JObj [(''theme'', JStr ''dark''), (''enabledMcpjsonServers'', JArr [JStr ''jupyter''])]))
   \<and> files (snd (generate_claude_settings w0 ''jupyter'' (snd (generate_claude_settings w0 ''jupyter'' rs0)))) =
       files (snd (generate_claude_settings w0 ''jupyter'' rs0))"
  using client_integration_write_idempotent [of "[(''theme'', JStr ''dark'')]" rs0 w0 "''jupyter''"]
  by (simp add: rs0_def st0_def fs0_def w0_def get_claude_config_path_def)

section \<open>Properties of the installer\<close>

lemma check_existing_valid:
  assumes "venv_exists env" "bin_python_exists env" "bin_activate_exists env"
    and "bin_python_executable env"
    and "command_ok orc (length effs)
           [str_path (get_virtual_env_path proj @ [''bin'', ''python'']), ''-c'', import_check]"
  shows "check_existing_installation orc proj (env, effs) =
           (True, (env, effs @ [RunCommand
              [str_path (get_virtual_env_path proj @ [''bin'', ''python'']), ''-c'', import_check]]))"
  using assms
  by (simp add: check_existing_installation_def validate_project_structure_def
        get_virtual_env_python_def run_command_def)

text \<open>
  Claim C6. On an environment that passes the check of an existing installation
  (directory and both binaries present, interpreter executable, smoke import
  succeeds), \<open>install\<close> without force returns \<open>True\<close>, leaves the environment as it
  is and runs the smoke import only: nothing is removed, created or installed. The
  call can therefore be repeated with the same outcome.
\<close>

theorem install_fast_path_idempotent:
  assumes "python_version_ok orc"
    and "venv_exists env" "bin_python_exists env" "bin_activate_exists env"
    and "bin_python_executable env"
    and "command_ok orc 0
           [str_path (get_virtual_env_path proj @ [''bin'', ''python'']), ''-c'', import_check]"
  shows "install orc proj False (env, []) =
           (Inr True, (env, [RunCommand
              [str_path (get_virtual_env_path proj @ [''bin'', ''python'']), ''-c'', import_check]]))
    \<and> list_all (\<lambda>e. \<not> destructive e) (snd (snd (install orc proj False (env, []))))
    \<and> install orc proj False (fst (snd (install orc proj False (env, []))), []) =
        install orc proj False (env, [])"
proof -
  let ?cmd = "[str_path (get_virtual_env_path proj @ [''bin'', ''python'']), ''-c'', import_check]"
  have "check_existing_installation orc proj (env, []) = (True, (env, [] @ [RunCommand ?cmd]))"
    using assms by (intro check_existing_valid) simp_all
  then have i: "install orc proj False (env, []) = (Inr True, (env, [RunCommand ?cmd]))"
    using assms(1) by (simp add: install_def)
  have "\<not> destructive (RunCommand ?cmd)"
    by (simp add: import_check_def str_path_def)
  with i show ?thesis by simp
qed

theorem install_fast_path_witness:
  "install orc_ok [''home'', ''u''] False (env_valid, []) =
     (Inr True, (env_valid, [RunCommand [''/home/u/jupyter-mcp-env/bin/python'', ''-c'', import_check]]))
   \<and> install orc_ok [''home'', ''u''] False
        (fst (snd (install orc_ok [''home'', ''u''] False (env_valid, []))), []) =
       install orc_ok [''home'', ''u''] False (env_valid, [])"
  using install_fast_path_idempotent [of orc_ok env_valid "[''home'', ''u'']"]
  by (simp add: orc_ok_def env_valid_def str_path_def get_virtual_env_path_def)

section \<open>Properties of teardown\<close>

lemma stop_process_teardown: "list_all is_teardown (fst (stop_process r out))"
  by (cases out) simp_all

lemma stop_process_raises: "snd (stop_process r out) = (if out = KillRaises then Some OtherException else None)"
  by (cases out) simp_all

lemma stop_if_started_frame:
  assumes "stop_if_started w r p rs = (x, rs')"
  shows "obj rs' = obj rs" and "files rs' = files rs"
    and "\<exists>es. trace rs' = trace rs @ es \<and> list_all is_teardown es"
  using assms stop_process_teardown [of r "stop_of w r (attempts r rs)"]
  by (auto simp: stop_if_started_def emit_def split: option.splits prod.splits)

lemma retract_config_frame:
  shows "obj (retract_config w rs) = obj rs"
    and "q \<noteq> mcp_config_path (obj rs) \<Longrightarrow> files (retract_config w rs) q = files rs q"
    and "\<exists>es. trace (retract_config w rs) = trace rs @ es \<and> list_all is_teardown es"
  by (auto simp: retract_config_def emit_def Let_def)

lemma cleanup_frame:
  assumes "cleanup w rs = (x, rs')"
  shows "obj rs' = obj rs"
    and "q \<noteq> mcp_config_path (obj rs) \<Longrightarrow> files rs' q = files rs q"
    and "\<exists>es. trace rs' = trace rs @ es \<and> list_all is_teardown es"
proof -
  obtain x1 rs1 where s1: "stop_if_started w Bridge (mcp_process (obj rs)) rs = (x1, rs1)"
    by (cases "stop_if_started w Bridge (mcp_process (obj rs)) rs")
  obtain x2 rs2 where s2: "stop_if_started w Interactive (jupyter_process (obj rs1)) rs1 = (x2, rs2)"
    by (cases "stop_if_started w Interactive (jupyter_process (obj rs1)) rs1")
  note f1 = stop_if_started_frame [OF s1]
  note f2 = stop_if_started_frame [OF s2]
  note f3 = retract_config_frame [where w = w and rs = rs2]
  from f1(3) obtain es1 where e1: "trace rs1 = trace rs @ es1" "list_all is_teardown es1" by blast
  from f2(3) obtain es2 where e2: "trace rs2 = trace rs1 @ es2" "list_all is_teardown es2" by blast
  from f3(3) obtain es3 where e3: "trace (retract_config w rs2) = trace rs2 @ es3"
    "list_all is_teardown es3" by blast
  consider (a) "x1 \<noteq> None" "rs' = rs1"
    | (b) "x1 = None" "x2 \<noteq> None" "rs' = rs2"
    | (c) "x1 = None" "x2 = None" "rs' = retract_config w rs2"
    using assms s1 s2 by (auto simp: cleanup_def split: option.splits)
  then have all: "obj rs' = obj rs
      \<and> (q \<noteq> mcp_config_path (obj rs) \<longrightarrow> files rs' q = files rs q)
      \<and> (\<exists>es. trace rs' = trace rs @ es \<and> list_all is_teardown es)"
  proof cases
    case a
    with f1 show ?thesis by simp
  next
    case b
    have "trace rs2 = trace rs @ (es1 @ es2)" "list_all is_teardown (es1 @ es2)"
      using e1 e2 by simp_all
    with b f1 f2 show ?thesis by auto
  next
    case c
    have "trace (retract_config w rs2) = trace rs @ (es1 @ es2 @ es3)"
      "list_all is_teardown (es1 @ es2 @ es3)"
      using e1 e2 e3 by simp_all
    with c f1 f2 f3 show ?thesis by auto
  qed
  from all show "obj rs' = obj rs" by simp
  from all show "q \<noteq> mcp_config_path (obj rs) \<Longrightarrow> files rs' q = files rs q" by simp
  from all show "\<exists>es. trace rs' = trace rs @ es \<and> list_all is_teardown es" by simp
qed

text \<open>When no forced kill raises, \<open>cleanup\<close> returns normally: every step it has reason
  to take is taken, in the order bridge, interactive server, discovery document.\<close>

lemma cleanup_without_kill_failure:
  assumes "\<And>r k. stop_of w r k \<noteq> KillRaises"
  shows "cleanup w rs =
     (None,
      retract_config w
        (emit (case jupyter_process (obj rs) of None \<Rightarrow> []
               | Some p \<Rightarrow> fst (stop_process Interactive
                   (stop_of w Interactive (attempts Interactive rs))))
          (emit (case mcp_process (obj rs) of None \<Rightarrow> []
                 | Some p \<Rightarrow> fst (stop_process Bridge (stop_of w Bridge (attempts Bridge rs))))
             rs)))"
proof -
  have att: "attempts Interactive (emit (fst (stop_process Bridge out)) rs) = attempts Interactive rs"
    for out by (cases out) (simp_all add: attempts_def emit_def)
  have nr: "snd (stop_process r (stop_of w r k)) = None" for r k
    using assms [of r k] by (simp add: stop_process_raises)
  show ?thesis
    using nr att
    by (cases "mcp_process (obj rs)"; cases "jupyter_process (obj rs)")
       (simp_all add: cleanup_def stop_if_started_def emit_def split_beta)
qed

text \<open>
  Claim C7 at the input where the code departs from it. Both processes run and the
  discovery document is on disk; the bridge does not exit within the timeout and
  \<open>kill()\<close> raises. The exception leaves \<open>cleanup\<close>: the interactive server is never
  asked to stop and the discovery document stays.
\<close>

theorem cleanup_kill_failure_escapes:
  "cleanup w_stuck rs_running =
     (Some OtherException, rs_running\<lparr>trace := [Terminate Bridge, Wait Bridge, Kill Bridge]\<rparr>)"
  by (simp add: cleanup_def stop_if_started_def attempts_def emit_def w_stuck_def w0_def
        rs_running_def)

section \<open>Properties of the discovery document\<close>

lemma create_env_cases:
  "create_jupyter_environment up st url tok nb = (Inl ServerSetupError, st)
   \<or> create_jupyter_environment up st url tok nb =
        (Inr (env_vars_of url tok nb), st\<lparr>validated_env := env_vars_of url tok nb\<rparr>)"
  by (simp add: create_jupyter_environment_def Let_def)

lemma bridge_environment_cases:
  "bridge_environment w st = (Inl ServerSetupError, st)
   \<or> (\<exists>url tok. jupyter_url st = Some url \<and> jupyter_token st = Some tok
        \<and> bridge_environment w st =
            (Inr (env_vars_of url tok
                    (get_relative_path_for_document_id (project_dir st) (notebook_path st))),
             st\<lparr>validated_env := env_vars_of url tok
                    (get_relative_path_for_document_id (project_dir st) (notebook_path st))\<rparr>))"
proof (cases "jupyter_url st")
  case None
  then show ?thesis by (simp add: bridge_environment_def)
next
  case u: (Some url)
  show ?thesis
  proof (cases "jupyter_token st")
    case None
    with u show ?thesis by (simp add: bridge_environment_def)
  next
    case (Some tok)
    with u show ?thesis
      using create_env_cases [of "urlparse w" st url tok
          "get_relative_path_for_document_id (project_dir st) (notebook_path st)"]
      by (auto simp: bridge_environment_def)
  qed
qed

lemma bridge_environment_same_config: "same_config st (snd (bridge_environment w st))"
  using bridge_environment_cases [of w st] by (auto simp: same_config_def)

lemma mcp_config_states_shape:
  assumes "generate_mcp_config_states w rs = (Inr states, st')"
  shows "\<exists>d. states =
        [(files rs)(mcp_config_path (obj rs) \<mapsto> Invalid []),
         (files rs)(mcp_config_path (obj rs) \<mapsto> Doc d)]"
  using assms bridge_environment_cases [of w "obj rs"]
  by (auto simp: generate_mcp_config_states_def write_json_states_def split: if_splits)

text \<open>
  Claim C9, as the code has it. When \<open>_generate_mcp_config\<close> writes, it opens the
  discovery document itself for writing and dumps into it: the file system passes
  through the state in which the document is empty and ends in the state in which
  it holds the complete configuration; both states differ from the state before
  only at the document's own path, so there is no temporary file and no rename.
\<close>

theorem discovery_written_in_place:
  assumes "generate_mcp_config_states w rs = (Inr states, st')"
  shows "\<exists>url tok.
      jupyter_url (obj rs) = Some url \<and> jupyter_token (obj rs) = Some tok
    \<and> states =
        [(files rs)(mcp_config_path (obj rs) \<mapsto> Invalid []),
         (files rs)(mcp_config_path (obj rs) \<mapsto>
            Doc (mcp_config (sys_executable w)
              (env_vars_of url tok
                 (get_relative_path_for_document_id (project_dir (obj rs))
                    (notebook_path (obj rs))))))]"
  using assms bridge_environment_cases [of w "obj rs"]
  by (auto simp: generate_mcp_config_states_def write_json_states_def split: if_splits)

lemma bridge_environment_concrete:
  "bridge_environment w0 st_facts =
     (Inr (env_vars_of ''http://localhost:8888'' ''abcdef0123456789'' ''nb.ipynb''),
      st_facts\<lparr>validated_env :=
        env_vars_of ''http://localhost:8888'' ''abcdef0123456789'' ''nb.ipynb''\<rparr>)"
proof -
  have "validate_token ''abcdef0123456789''"
    by (simp add: validate_token_def re_match_hex_def is_hex_def)
  moreover have "validate_url (urlparse w0) ''http://localhost:8888''"
    by (simp add: validate_url_def w0_def urlparse0_def)
  ultimately have "create_jupyter_environment (urlparse w0) st_facts ''http://localhost:8888''
      ''abcdef0123456789'' ''nb.ipynb'' =
     (Inr (env_vars_of ''http://localhost:8888'' ''abcdef0123456789'' ''nb.ipynb''),
      st_facts\<lparr>validated_env :=
        env_vars_of ''http://localhost:8888'' ''abcdef0123456789'' ''nb.ipynb''\<rparr>)"
    by (intro create_env_ok) simp_all
  then show ?thesis
    by (simp add: bridge_environment_def st_facts_def st0_def get_relative_path_for_document_id_def)
qed

lemma generate_mcp_config_states_concrete:
  "generate_mcp_config_states w0 rs_facts =
     (Inr [fs0([''home'', ''u'', ''.mcp.json''] \<mapsto> Invalid []),
           fs0([''home'', ''u'', ''.mcp.json''] \<mapsto>
             Doc (mcp_config ''/usr/bin/python3''
               (env_vars_of ''http://localhost:8888'' ''abcdef0123456789'' ''nb.ipynb'')))],
      st_facts\<lparr>validated_env :=
        env_vars_of ''http://localhost:8888'' ''abcdef0123456789'' ''nb.ipynb''\<rparr>)"
proof -
  have "mcp_config_writable w0" "sys_executable w0 = ''/usr/bin/python3''"
    by (simp_all add: w0_def)
  moreover have "obj rs_facts = st_facts" "files rs_facts = fs0"
    "mcp_config_path st_facts = [''home'', ''u'', ''.mcp.json'']"
    by (simp_all add: rs_facts_def st_facts_def st0_def)
  ultimately show ?thesis
    by (simp add: generate_mcp_config_states_def bridge_environment_concrete write_json_states_def)
qed

theorem discovery_written_in_place_witness:
  "\<exists>url tok. jupyter_url (obj rs_facts) = Some url \<and> jupyter_token (obj rs_facts) = Some tok
    \<and> [fs0([''home'', ''u'', ''.mcp.json''] \<mapsto> Invalid []),
        fs0([''home'', ''u'', ''.mcp.json''] \<mapsto>
          Doc (mcp_config ''/usr/bin/python3''
            (env_vars_of ''http://localhost:8888'' ''abcdef0123456789'' ''nb.ipynb'')))] =
       [(files rs_facts)(mcp_config_path (obj rs_facts) \<mapsto> Invalid []),
        (files rs_facts)(mcp_config_path (obj rs_facts) \<mapsto>
           Doc (mcp_config (sys_executable w0)
             (env_vars_of url tok
                (get_relative_path_for_document_id (project_dir (obj rs_facts))
                   (notebook_path (obj rs_facts))))))]"
  using discovery_written_in_place [OF generate_mcp_config_states_concrete] .

text \<open>
  The claim as written excludes a partially written file. In the concrete run the
  first state of the write holds an empty discovery document, which is neither what
  was there before (nothing) nor the configuration.
\<close>

theorem discovery_write_counterexample:
  "fst (generate_mcp_config_states w0 rs_facts) =
     Inr [fs0([''home'', ''u'', ''.mcp.json''] \<mapsto> Invalid []),
          fs0([''home'', ''u'', ''.mcp.json''] \<mapsto>
            Doc (mcp_config ''/usr/bin/python3''
              (env_vars_of ''http://localhost:8888'' ''abcdef0123456789'' ''nb.ipynb'')))]
   \<and> fs0 [''home'', ''u'', ''.mcp.json''] = None
   \<and> Invalid [] \<noteq>
       Doc (mcp_config ''/usr/bin/python3''
         (env_vars_of ''http://localhost:8888'' ''abcdef0123456789'' ''nb.ipynb''))"
  by (simp add: generate_mcp_config_states_concrete fs0_def)

section \<open>What each phase of a run does to the state\<close>

lemma match_at_groups: "match_at p s = Some (g1, g2) \<Longrightarrow> g1 \<noteq> [] \<and> g2 \<noteq> []"
  by (auto simp: match_at_def Let_def split: option.splits if_splits)

lemma re_search_groups: "re_search p s = Some (g1, g2) \<Longrightarrow> g1 \<noteq> [] \<and> g2 \<noteq> []"
  by (induction s) (auto dest: match_at_groups split: option.splits)

lemma try_patterns_facts: "try_patterns ps line = Some (port, tok) \<Longrightarrow> port > 0 \<and> tok \<noteq> []"
proof (induction ps)
  case Nil
  then show ?case by simp
next
  case (Cons p ps)
  show ?case
  proof (cases "re_search p line")
    case None
    with Cons show ?thesis by simp
  next
    case (Some m)
    obtain g1 g2 where m: "m = (g1, g2)" by (cases m)
    show ?thesis
    proof (cases "py_int g1 > 0")
      case True
      with Cons.prems Some m re_search_groups [of p line g1 g2] show ?thesis
        by (simp add: Let_def)
    next
      case False
      with Cons Some m show ?thesis by (simp add: Let_def)
    qed
  qed
qed

lemma extract_cases:
  "extract_jupyter_details st line = (False, st)
   \<or> (\<exists>port tok. port > 0 \<and> tok \<noteq> []
        \<and> extract_jupyter_details st line =
            (True, st\<lparr>jupyter_port := Some port, jupyter_token := Some tok,
                       jupyter_url := Some (''http://localhost:'' @ str_int port)\<rparr>))"
proof (cases "try_patterns patterns line")
  case None
  then show ?thesis by (simp add: extract_jupyter_details_def)
next
  case (Some m)
  obtain port tok where m: "m = (port, tok)" by (cases m)
  have "port > 0 \<and> tok \<noteq> []"
    using Some m try_patterns_facts [of patterns line port tok] by simp
  moreover have "extract_jupyter_details st line =
      (True, st\<lparr>jupyter_port := Some port, jupyter_token := Some tok,
                 jupyter_url := Some (''http://localhost:'' @ str_int port)\<rparr>)"
    using Some m by (simp add: extract_jupyter_details_def)
  ultimately show ?thesis by blast
qed

text \<open>The startup loop either fails and leaves the state as it was, or stores positive
  port, non-empty token and URL and records the extraction.\<close>

lemma scan_output_cases:
  "scan_output evs rs = (Inl ServerSetupError, rs)
   \<or> (\<exists>port tok. port > 0 \<and> tok \<noteq> []
        \<and> scan_output evs rs =
            (Inr True,
             rs\<lparr>obj := (obj rs)\<lparr>jupyter_port := Some port, jupyter_token := Some tok,
                     jupyter_url := Some (''http://localhost:'' @ str_int port)\<rparr>,
                 trace := trace rs @ [FactsExtracted port tok]\<rparr>))"
proof (induction evs rs rule: scan_output.induct)
  case (1 rs)
  then show ?case by simp
next
  case (2 evs rs)
  then show ?case by simp
next
  case (3 evs rs)
  then show ?case by simp
next
  case (4 line evs rs)
  show ?case
  proof (cases "line = []")
    case True
    with 4 show ?thesis by simp
  next
    case False
    from extract_cases [of "obj rs" line] show ?thesis
    proof
      assume e: "extract_jupyter_details (obj rs) line = (False, obj rs)"
      have "rs\<lparr>obj := obj rs\<rparr> = rs" by simp
      with 4(2) [OF False e [symmetric]] False e show ?thesis by simp
    next
      assume "\<exists>port tok. port > 0 \<and> tok \<noteq> []
        \<and> extract_jupyter_details (obj rs) line =
            (True, (obj rs)\<lparr>jupyter_port := Some port, jupyter_token := Some tok,
                       jupyter_url := Some (''http://localhost:'' @ str_int port)\<rparr>)"
      then obtain port tok where "port > 0" "tok \<noteq> []"
        "extract_jupyter_details (obj rs) line =
            (True, (obj rs)\<lparr>jupyter_port := Some port, jupyter_token := Some tok,
                       jupyter_url := Some (''http://localhost:'' @ str_int port)\<rparr>)"
        by blast
      then have "scan_output (ReadLine line # evs) rs =
            (Inr True,
             rs\<lparr>obj := (obj rs)\<lparr>jupyter_port := Some port, jupyter_token := Some tok,
                     jupyter_url := Some (''http://localhost:'' @ str_int port)\<rparr>,
                 trace := trace rs @ [FactsExtracted port tok]\<rparr>)"
        using False by (simp add: emit_def)
      with \<open>port > 0\<close> \<open>tok \<noteq> []\<close> show ?thesis by blast
    qed
  qed
qed


lemma start_jupyter_lab_cases:
  assumes "start_jupyter_lab w rs = (r, rs')"
  shows "files rs' = files rs \<and> same_config (obj rs) (obj rs')
    \<and> mcp_process (obj rs') = mcp_process (obj rs)
    \<and> ((r = Inl ServerSetupError
          \<and> (trace rs' = trace rs \<or> (\<exists>cmd. trace rs' = trace rs @ [Launched Interactive cmd])))
        \<or> (r = Inr True \<and> details_available (obj rs') \<and> jupyter_process (obj rs') \<noteq> None
            \<and> (\<exists>cmd port tok. port > 0 \<and> tok \<noteq> []
                 \<and> trace rs' = trace rs @ [Launched Interactive cmd, FactsExtracted port tok])))"
proof (cases "venv_python w (project_dir (obj rs))")
  case (Inl e)
  with assms show ?thesis by (auto simp: start_jupyter_lab_def same_config_def)
next
  case (Inr py)
  show ?thesis
  proof (cases "jupyter_popen_ok w")
    case False
    with Inr assms show ?thesis by (auto simp: start_jupyter_lab_def same_config_def)
  next
    case True
    define cmd where "cmd = jupyter_cmd (obj rs) (str_path py)"
    define rs1 where "rs1 = emit [Launched Interactive cmd]
                     (rs\<lparr>obj := (obj rs)\<lparr>jupyter_process := Some (Popen cmd)\<rparr>\<rparr>)"
    have s: "scan_output (jupyter_output w) rs1 = (r, rs')"
      using assms Inr True by (simp add: start_jupyter_lab_def cmd_def rs1_def Let_def)
    have rs1: "files rs1 = files rs" "same_config (obj rs) (obj rs1)"
      "mcp_process (obj rs1) = mcp_process (obj rs)"
      "trace rs1 = trace rs @ [Launched Interactive cmd]"
      "jupyter_process (obj rs1) \<noteq> None"
      by (simp_all add: rs1_def emit_def same_config_def)
    from scan_output_cases [of "jupyter_output w" rs1] show ?thesis
    proof
      assume "scan_output (jupyter_output w) rs1 = (Inl ServerSetupError, rs1)"
      with s have "r = Inl ServerSetupError" "rs' = rs1" by simp_all
      with rs1 show ?thesis by auto
    next
      assume "\<exists>port tok. port > 0 \<and> tok \<noteq> []
        \<and> scan_output (jupyter_output w) rs1 =
            (Inr True,
             rs1\<lparr>obj := (obj rs1)\<lparr>jupyter_port := Some port, jupyter_token := Some tok,
                     jupyter_url := Some (''http://localhost:'' @ str_int port)\<rparr>,
                 trace := trace rs1 @ [FactsExtracted port tok]\<rparr>)"
      then obtain port tok where pt: "port > 0" "tok \<noteq> []"
        and sc: "scan_output (jupyter_output w) rs1 =
            (Inr True,
             rs1\<lparr>obj := (obj rs1)\<lparr>jupyter_port := Some port, jupyter_token := Some tok,
                     jupyter_url := Some (''http://localhost:'' @ str_int port)\<rparr>,
                 trace := trace rs1 @ [FactsExtracted port tok]\<rparr>)"
        by blast
      from s sc have r: "r = Inr True"
        and rs': "rs' = rs1\<lparr>obj := (obj rs1)\<lparr>jupyter_port := Some port, jupyter_token := Some tok,
                     jupyter_url := Some (''http://localhost:'' @ str_int port)\<rparr>,
                 trace := trace rs1 @ [FactsExtracted port tok]\<rparr>"
        by simp_all
      have "trace rs' = trace rs @ [Launched Interactive cmd, FactsExtracted port tok]"
        using rs' rs1(4) by simp
      moreover have "details_available (obj rs')"
        using rs' pt by (simp add: details_available_def)
      moreover have "files rs' = files rs" "same_config (obj rs) (obj rs')"
        "mcp_process (obj rs') = mcp_process (obj rs)" "jupyter_process (obj rs') \<noteq> None"
        using rs' rs1 by (simp_all add: same_config_def)
      ultimately show ?thesis using r pt by blast
    qed
  qed
qed

lemma start_mcp_server_cases:
  assumes "start_mcp_server w rs = (r, rs')"
  shows "files rs' = files rs \<and> same_config (obj rs) (obj rs')
    \<and> jupyter_process (obj rs') = jupyter_process (obj rs)
    \<and> ((r = Inl ServerSetupError
          \<and> (trace rs' = trace rs \<or> (\<exists>cmd. trace rs' = trace rs @ [Launched Bridge cmd])))
        \<or> (r = Inr True \<and> details_available (obj rs') \<and> mcp_process (obj rs') \<noteq> None
            \<and> (\<exists>cmd. trace rs' = trace rs @ [Launched Bridge cmd, ConfirmedRunning Bridge])))"
proof (cases "details_available (obj rs)")
  case False
  with assms show ?thesis by (auto simp: start_mcp_server_def same_config_def)
next
  case da: True
  from bridge_environment_cases [of w "obj rs"] show ?thesis
  proof
    assume "bridge_environment w (obj rs) = (Inl ServerSetupError, obj rs)"
    with assms da show ?thesis by (auto simp: start_mcp_server_def same_config_def)
  next
    assume "\<exists>url tok. jupyter_url (obj rs) = Some url \<and> jupyter_token (obj rs) = Some tok
        \<and> bridge_environment w (obj rs) =
            (Inr (env_vars_of url tok
                    (get_relative_path_for_document_id (project_dir (obj rs)) (notebook_path (obj rs)))),
             (obj rs)\<lparr>validated_env := env_vars_of url tok
                    (get_relative_path_for_document_id (project_dir (obj rs)) (notebook_path (obj rs)))\<rparr>)"
    then obtain env where be: "bridge_environment w (obj rs) = (Inr env, (obj rs)\<lparr>validated_env := env\<rparr>)"
      by blast
    define st' where "st' = (obj rs)\<lparr>validated_env := env\<rparr>"
    have st': "same_config (obj rs) st'" "jupyter_process st' = jupyter_process (obj rs)"
      "details_available st'" "project_dir st' = project_dir (obj rs)"
      using da by (simp_all add: st'_def same_config_def details_available_def)
    show ?thesis
    proof (cases "venv_python w (project_dir (obj rs))")
      case (Inl e)
      with assms da be st' show ?thesis
        by (auto simp: start_mcp_server_def st'_def [symmetric])
    next
      case (Inr py)
      show ?thesis
      proof (cases "mcp_popen_ok w")
        case False
        with Inr assms da be st' show ?thesis
          by (auto simp: start_mcp_server_def st'_def [symmetric])
      next
        case True
        define cmd where "cmd = mcp_cmd (str_path py)"
        define rs1 where "rs1 = emit [Launched Bridge cmd]
                                   (rs\<lparr>obj := st'\<lparr>mcp_process := Some (Popen cmd)\<rparr>\<rparr>)"
        have rs1: "files rs1 = files rs" "same_config (obj rs) (obj rs1)"
          "jupyter_process (obj rs1) = jupyter_process (obj rs)"
          "details_available (obj rs1)" "mcp_process (obj rs1) \<noteq> None"
          "trace rs1 = trace rs @ [Launched Bridge cmd]"
          using st' by (simp_all add: rs1_def emit_def same_config_def details_available_def)
        have res: "(r, rs') = (if mcp_alive_after_delay w
                        then (Inr True, emit [ConfirmedRunning Bridge] rs1)
                        else (Inl ServerSetupError, rs1))"
          using assms da be Inr True st'(4)
          by (auto simp: start_mcp_server_def st'_def [symmetric] cmd_def rs1_def Let_def split: if_splits)
        show ?thesis
        proof (cases "mcp_alive_after_delay w")
          case True
          with res have "r = Inr True" "rs' = emit [ConfirmedRunning Bridge] rs1" by simp_all
          with rs1 show ?thesis by (auto simp: emit_def)
        next
          case False
          with res have "r = Inl ServerSetupError" "rs' = rs1" by simp_all
          with rs1 show ?thesis by auto
        qed
      qed
    qed
  qed
qed

lemma generate_mcp_config_cases:
  assumes "generate_mcp_config w rs = (x, rs')"
  shows "same_config (obj rs) (obj rs')
    \<and> ((x \<noteq> None \<and> trace rs' = trace rs \<and> files rs' = files rs)
        \<or> (x = None \<and> trace rs' = trace rs @ [DiscoveryWritten (mcp_config_path (obj rs))]
            \<and> (\<exists>d. files rs' = (files rs)(mcp_config_path (obj rs) \<mapsto> Doc d))))"
proof -
  obtain y st' where g: "generate_mcp_config_states w rs = (y, st')"
    by (cases "generate_mcp_config_states w rs")
  have st': "st' = snd (bridge_environment w (obj rs))"
    using g by (auto simp: generate_mcp_config_states_def split: prod.splits sum.splits if_splits)
  then have sc: "same_config (obj rs) st'"
    by (simp add: bridge_environment_same_config)
  show ?thesis
  proof (cases y)
    case (Inl e)
    with assms g sc show ?thesis by (auto simp: generate_mcp_config_def)
  next
    case (Inr states)
    from mcp_config_states_shape [OF g [unfolded Inr]]
    obtain d where "states = [(files rs)(mcp_config_path (obj rs) \<mapsto> Invalid []),
         (files rs)(mcp_config_path (obj rs) \<mapsto> Doc d)]"
      by blast
    moreover have "mcp_config_path st' = mcp_config_path (obj rs)"
      using sc by (simp add: same_config_def)
    ultimately show ?thesis
      using assms g Inr sc by (auto simp: generate_mcp_config_def emit_def)
  qed
qed


lemma generate_claude_settings_cases:
  assumes "generate_claude_settings w nm rs = (b, rs')"
  shows "obj rs' = obj rs
    \<and> ((\<not> b \<and> trace rs' = trace rs @ [LogError] \<and> files rs' = files rs)
        \<or> (b \<and> (\<exists>s. update_enabled_mcp_servers nm
                      (load_existing_claude_settings (files rs)
                         (get_claude_config_path (project_dir (obj rs)))) = Inr s
                 \<and> trace rs' = trace rs @ [SettingsWritten (get_claude_config_path (project_dir (obj rs)))]
                 \<and> files rs' = (files rs)(get_claude_config_path (project_dir (obj rs)) \<mapsto> Doc s))))"
  using assms
  by (auto simp: generate_claude_settings_def emit_def write_json_states_def Let_def
           split: if_splits sum.splits)

lemma load_other_path:
  "p \<noteq> q \<Longrightarrow> load_existing_claude_settings (fs(q \<mapsto> c)) p = load_existing_claude_settings fs p"
  by (simp add: load_existing_claude_settings_def)

text \<open>What \<open>generate_configurations\<close> leaves behind; what it says about the settings file
  holds when the discovery document and the settings file are different files.\<close>

lemma generate_configurations_cases:
  assumes "generate_configurations w rs = (r, rs')"
  shows "same_config (obj rs) (obj rs')
    \<and> ((r = Inl ServerSetupError \<and> trace rs' = trace rs \<and> files rs' = files rs)
        \<or> (r = Inr True
            \<and> ((\<exists>es. (es = [] \<or> es = [LogError])
                   \<and> trace rs' = trace rs @ DiscoveryWritten (mcp_config_path (obj rs)) # es
                   \<and> (mcp_config_path (obj rs) \<noteq> get_claude_config_path (project_dir (obj rs))
                       \<longrightarrow> files rs' (get_claude_config_path (project_dir (obj rs))) =
                             files rs (get_claude_config_path (project_dir (obj rs)))))
                \<or> (trace rs' = trace rs @ [DiscoveryWritten (mcp_config_path (obj rs)),
                             SettingsWritten (get_claude_config_path (project_dir (obj rs)))]
                    \<and> (mcp_config_path (obj rs) \<noteq> get_claude_config_path (project_dir (obj rs))
                       \<longrightarrow> (\<exists>s. update_enabled_mcp_servers ''jupyter''
                                   (load_existing_claude_settings (files rs)
                                      (get_claude_config_path (project_dir (obj rs)))) = Inr s
                              \<and> files rs' (get_claude_config_path (project_dir (obj rs))) =
                                  Some (Doc s)))))))"
proof (cases "details_available (obj rs)")
  case False
  with assms show ?thesis by (auto simp: generate_configurations_def same_config_def)
next
  case da: True
  let ?mp = "mcp_config_path (obj rs)"
  let ?pc = "get_claude_config_path (project_dir (obj rs))"
  obtain x rs1 where g: "generate_mcp_config w rs = (x, rs1)"
    by (cases "generate_mcp_config w rs")
  note c1 = generate_mcp_config_cases [OF g]
  show ?thesis
  proof (cases x)
    case (Some e)
    with assms da g c1 show ?thesis by (auto simp: generate_configurations_def)
  next
    case None
    with c1 obtain d where rs1: "same_config (obj rs) (obj rs1)"
      "trace rs1 = trace rs @ [DiscoveryWritten ?mp]" "files rs1 = (files rs)(?mp \<mapsto> Doc d)"
      by auto
    have pd: "project_dir (obj rs1) = project_dir (obj rs)"
      using rs1(1) by (simp add: same_config_def)
    show ?thesis
    proof (cases "claude_config (obj rs1)")
      case False
      with assms da g None have "r = Inr True" "rs' = rs1"
        by (simp_all add: generate_configurations_def)
      with rs1 show ?thesis by auto
    next
      case True
      obtain b rs2 where s: "generate_claude_settings w ''jupyter'' rs1 = (b, rs2)"
        by (cases "generate_claude_settings w ''jupyter'' rs1")
      with assms da g None True have r: "r = Inr True" "rs' = rs2"
        by (simp_all add: generate_configurations_def)
      note c2 = generate_claude_settings_cases [OF s]
      have ld: "load_existing_claude_settings (files rs1) ?pc =
                load_existing_claude_settings (files rs) ?pc" if "?mp \<noteq> ?pc"
        using that rs1(3) by (simp add: load_other_path)
      from c2 have o: "obj rs2 = obj rs1" by simp
      show ?thesis
      proof (cases b)
        case False
        with c2 have "trace rs2 = trace rs1 @ [LogError]" "files rs2 = files rs1" by auto
        with r rs1 o show ?thesis by auto
      next
        case True
        with c2 pd obtain s where
          u: "update_enabled_mcp_servers ''jupyter'' (load_existing_claude_settings (files rs1) ?pc) = Inr s"
          and tr: "trace rs2 = trace rs1 @ [SettingsWritten ?pc]"
          and fl: "files rs2 = (files rs1)(?pc \<mapsto> Doc s)"
          by auto
        have "trace rs' = trace rs @ [DiscoveryWritten ?mp, SettingsWritten ?pc]"
          using r tr rs1 by simp
        moreover have "\<exists>s. update_enabled_mcp_servers ''jupyter''
              (load_existing_claude_settings (files rs) ?pc) = Inr s
            \<and> files rs' ?pc = Some (Doc s)" if "?mp \<noteq> ?pc"
          using u fl r ld [OF that] by auto
        moreover have "same_config (obj rs) (obj rs')"
          using r o rs1 by simp
        ultimately show ?thesis using r(1) by blast
      qed
    qed
  qed
qed

lemma signal_handler_frame:
  assumes "signal_handler w n rs = (e, rs')"
  shows "obj rs' = obj rs"
    and "q \<noteq> mcp_config_path (obj rs) \<Longrightarrow> files rs' q = files rs q"
    and "\<exists>es. trace rs' = trace rs @ es \<and> list_all is_teardown es"
proof -
  obtain x where c: "cleanup w rs = (x, rs')"
    using assms by (auto simp: signal_handler_def split: prod.splits option.splits)
  from cleanup_frame [OF c] show "obj rs' = obj rs"
    and "q \<noteq> mcp_config_path (obj rs) \<Longrightarrow> files rs' q = files rs q"
    and "\<exists>es. trace rs' = trace rs @ es \<and> list_all is_teardown es"
    by simp_all
qed

lemma monitor_processes_frame:
  assumes "monitor_processes w ts rs = (r, rs')"
  shows "obj rs' = obj rs
    \<and> (q \<noteq> mcp_config_path (obj rs) \<longrightarrow> files rs' q = files rs q)
    \<and> (\<exists>es. trace rs' = trace rs @ es \<and> list_all is_teardown es)"
  using assms
proof (induction w ts rs rule: monitor_processes.induct)
  case (6 w n ts rs)
  obtain e rs1 where h: "signal_handler w n rs = (e, rs1)"
    by (cases "signal_handler w n rs")
  with 6 have "rs' = rs1" by simp
  with signal_handler_frame [OF h] show ?case by simp
qed (auto split: if_splits)

section \<open>The events of a whole run\<close>

lemma run_eventsI:
  assumes "trace rs' = trace rs @ e1 @ e2 @ e3 @ e4"
    and "interactive_events e1" "bridge_events e2"
    and "e2 \<noteq> [] \<Longrightarrow> facts_known e1" "e3 \<noteq> [] \<Longrightarrow> bridge_confirmed e2"
    and "list_all is_teardown e4"
    and "config_events (mcp_config_path (obj rs)) (get_claude_config_path (project_dir (obj rs)))
           (files rs) (files rs') e3"
  shows "run_events rs rs' e1 e2 e3 e4"
  using assms unfolding run_events_def by blast

lemma config_events_none: "fs' pc = fs pc \<Longrightarrow> config_events mp pc fs fs' []"
  by (simp add: config_events_def)

lemma run_body_events:
  assumes "run_body w rs = (b, rs')"
  shows "same_config (obj rs) (obj rs') \<and> (\<exists>e1 e2 e3 e4. run_events rs rs' e1 e2 e3 e4)"
proof -
  let ?mp = "mcp_config_path (obj rs)"
  let ?pc = "get_claude_config_path (project_dir (obj rs))"
  obtain r1 rs1 where p1: "start_jupyter_lab w rs = (r1, rs1)"
    by (cases "start_jupyter_lab w rs")
  note c1 = start_jupyter_lab_cases [OF p1]
  from c1 have f1: "files rs1 = files rs" and s1: "same_config (obj rs) (obj rs1)" by simp_all
  show ?thesis
  proof (cases "r1 = Inr True")
    case False
    with c1 have r1: "r1 = Inl ServerSetupError"
      and t1: "trace rs1 = trace rs \<or> (\<exists>cmd. trace rs1 = trace rs @ [Launched Interactive cmd])"
      by auto
    from assms p1 r1 have eq: "rs' = rs1" by (simp add: run_body_def)
    from t1 obtain e1 where "trace rs1 = trace rs @ e1" "interactive_events e1"
      by (auto simp: interactive_events_def)
    then have "run_events rs rs1 e1 [] [] []"
      using f1 by (intro run_eventsI) (simp_all add: bridge_events_def config_events_none)
    with s1 eq show ?thesis by blast
  next
    case ok1: True
    with c1 obtain e1 where e1: "trace rs1 = trace rs @ e1" "facts_known e1"
      by (auto simp: facts_known_def)
    then have ie1: "interactive_events e1" by (simp add: interactive_events_def)
    obtain r2 rs2 where p2: "start_mcp_server w rs1 = (r2, rs2)"
      by (cases "start_mcp_server w rs1")
    note c2 = start_mcp_server_cases [OF p2]
    from c2 f1 have f2: "files rs2 = files rs" by simp
    from c2 s1 have s2: "same_config (obj rs) (obj rs2)" by (simp add: same_config_def)
    show ?thesis
    proof (cases "r2 = Inr True")
      case False
      with c2 have r2: "r2 = Inl ServerSetupError"
        and t2: "trace rs2 = trace rs1 \<or> (\<exists>cmd. trace rs2 = trace rs1 @ [Launched Bridge cmd])"
        by auto
      from assms p1 ok1 p2 r2 have eq: "rs' = rs2" by (simp add: run_body_def)
      from t2 obtain e2 where "trace rs2 = trace rs1 @ e2" "bridge_events e2"
        by (auto simp: bridge_events_def)
      then have "run_events rs rs2 e1 e2 [] []"
        using e1 ie1 f2 by (intro run_eventsI) (simp_all add: config_events_none)
      with s2 eq show ?thesis by blast
    next
      case ok2: True
      with c2 obtain e2 where e2: "trace rs2 = trace rs1 @ e2" "bridge_confirmed e2"
        by (auto simp: bridge_confirmed_def)
      then have be2: "bridge_events e2" by (simp add: bridge_events_def)
      obtain r3 rs3 where p3: "generate_configurations w rs2 = (r3, rs3)"
        by (cases "generate_configurations w rs2")
      note c3 = generate_configurations_cases [OF p3]
      have mp2: "mcp_config_path (obj rs2) = ?mp" "project_dir (obj rs2) = project_dir (obj rs)"
        using s2 by (simp_all add: same_config_def)
      from c3 s2 have s3: "same_config (obj rs) (obj rs3)" by (simp add: same_config_def)
      have mp3: "mcp_config_path (obj rs3) = ?mp"
        using s3 by (simp add: same_config_def)
      show ?thesis
      proof (cases "r3 = Inr True")
        case False
        with c3 have r3: "r3 = Inl ServerSetupError" "trace rs3 = trace rs2" "files rs3 = files rs2"
          by auto
        from assms p1 ok1 p2 ok2 p3 r3 have eq: "rs' = rs3" by (simp add: run_body_def)
        have "run_events rs rs3 e1 e2 [] []"
          using e1 ie1 e2 be2 r3 f2 by (intro run_eventsI) (simp_all add: config_events_none)
        with s3 eq show ?thesis by blast
      next
        case ok3: True
        have m: "monitor_processes w (monitor_ticks w) rs3 = (b, rs')"
          using assms p1 ok1 p2 ok2 p3 ok3 by (simp add: run_body_def)
        note c4 = monitor_processes_frame [OF m, of ?pc]
        from c4 obtain e4 where e4: "trace rs' = trace rs3 @ e4" "list_all is_teardown e4" by blast
        from c4 have o4: "obj rs' = obj rs3" by simp
        have f4: "files rs' ?pc = files rs3 ?pc" if "?mp \<noteq> ?pc"
          using c4 mp3 that by simp
        have "\<exists>e3. e3 \<noteq> [] \<and> trace rs3 = trace rs2 @ e3
                \<and> config_events ?mp ?pc (files rs) (files rs3) e3"
        proof -
          from c3 ok3 consider
            (plain) es where "es = [] \<or> es = [LogError]"
              "trace rs3 = trace rs2 @ DiscoveryWritten (mcp_config_path (obj rs2)) # es"
              "mcp_config_path (obj rs2) \<noteq> get_claude_config_path (project_dir (obj rs2))
                 \<longrightarrow> files rs3 (get_claude_config_path (project_dir (obj rs2))) =
                       files rs2 (get_claude_config_path (project_dir (obj rs2)))"
            | (settings)
              "trace rs3 = trace rs2 @ [DiscoveryWritten (mcp_config_path (obj rs2)),
                   SettingsWritten (get_claude_config_path (project_dir (obj rs2)))]"
              "mcp_config_path (obj rs2) \<noteq> get_claude_config_path (project_dir (obj rs2))
                 \<longrightarrow> (\<exists>s. update_enabled_mcp_servers ''jupyter''
                          (load_existing_claude_settings (files rs2)
                             (get_claude_config_path (project_dir (obj rs2)))) = Inr s
                        \<and> files rs3 (get_claude_config_path (project_dir (obj rs2))) = Some (Doc s))"
            by blast
          then show ?thesis
          proof cases
            case plain
            have "config_events ?mp ?pc (files rs) (files rs3) (DiscoveryWritten ?mp # es)"
              using plain(1,3) unfolding config_events_def mp2 f2 by blast
            with plain(2) show ?thesis unfolding mp2 by blast
          next
            case settings
            have "config_events ?mp ?pc (files rs) (files rs3)
                    [DiscoveryWritten ?mp, SettingsWritten ?pc]"
              using settings(2) unfolding config_events_def mp2 f2 by blast
            with settings(1) show ?thesis unfolding mp2 by blast
          qed
        qed
        then obtain e3 where e3: "e3 \<noteq> []" "trace rs3 = trace rs2 @ e3"
          "config_events ?mp ?pc (files rs) (files rs3) e3" by blast
        have cfg: "config_events ?mp ?pc (files rs) (files rs') e3"
          using e3(3) f4 unfolding config_events_def by metis
        have "run_events rs rs' e1 e2 e3 e4"
          using e1 ie1 e2 be2 e3 e4 cfg by (intro run_eventsI) simp_all
        with s3 o4 show ?thesis by auto
      qed
    qed
  qed
qed

lemma run_events_extend:
  assumes "run_events rs rs1 e1 e2 e3 e4"
    and "trace rs2 = trace rs1 @ td" "list_all is_teardown td"
    and "mcp_config_path (obj rs) \<noteq> get_claude_config_path (project_dir (obj rs))
         \<Longrightarrow> files rs2 (get_claude_config_path (project_dir (obj rs))) =
             files rs1 (get_claude_config_path (project_dir (obj rs)))"
  shows "run_events rs rs2 e1 e2 e3 (e4 @ td)"
proof -
  have "config_events (mcp_config_path (obj rs)) (get_claude_config_path (project_dir (obj rs)))
          (files rs) (files rs2) e3"
    using assms(1,4) unfolding run_events_def config_events_def by metis
  then show ?thesis
    using assms(1-3) unfolding run_events_def by simp
qed

lemma run_events_of_run: "\<exists>e1 e2 e3 e4. run_events rs (snd (run w rs)) e1 e2 e3 e4"
proof -
  obtain b rs1 where rb: "run_body w rs = (b, rs1)" by (cases "run_body w rs")
  from run_body_events [OF rb] obtain e1 e2 e3 e4
    where sc: "same_config (obj rs) (obj rs1)" and ev: "run_events rs rs1 e1 e2 e3 e4"
    by blast
  show ?thesis
  proof (cases b)
    case None
    with rb have "snd (run w rs) = rs1" by (simp add: run_def)
    with ev show ?thesis by auto
  next
    case (Some out)
    obtain x rs2 where c: "cleanup w rs1 = (x, rs2)" by (cases "cleanup w rs1")
    with rb Some have r: "snd (run w rs) = rs2"
      by (cases x) (simp_all add: run_def)
    note fr = cleanup_frame [OF c]
    from fr(3) obtain td where td: "trace rs2 = trace rs1 @ td" "list_all is_teardown td" by blast
    have mp: "mcp_config_path (obj rs1) = mcp_config_path (obj rs)"
      using sc by (simp add: same_config_def)
    have "run_events rs rs2 e1 e2 e3 (e4 @ td)"
      using ev td
    proof (rule run_events_extend)
      assume "mcp_config_path (obj rs) \<noteq> get_claude_config_path (project_dir (obj rs))"
      then show "files rs2 (get_claude_config_path (project_dir (obj rs))) =
                 files rs1 (get_claude_config_path (project_dir (obj rs)))"
        using fr(2) [of "get_claude_config_path (project_dir (obj rs))"] mp by simp
    qed
    with r show ?thesis by auto
  qed
qed

section \<open>Order of startup\<close>

lemma never_before_quiet: "list_all (\<lambda>e. \<not> B e) es \<Longrightarrow> never_before A B es"
  by (induction es) auto

lemma teardown_quiet:
  "is_teardown e \<Longrightarrow> \<not> is_bridge_launch e \<and> \<not> is_discovery_written e \<and> (\<forall>p. e \<noteq> SettingsWritten p)"
  by (cases e) auto

lemma teardown_list_quiet:
  assumes "list_all is_teardown es"
  shows "list_all (\<lambda>e. \<not> is_bridge_launch e) es" "list_all (\<lambda>e. \<not> is_discovery_written e) es"
    "SettingsWritten p \<notin> set es"
  using assms teardown_quiet by (auto simp: list_all_iff)

lemma run_events_order:
  assumes "run_events rs rs' e1 e2 e3 e4"
  shows "never_before is_facts is_bridge_launch (e1 @ e2 @ e3 @ e4)"
    and "never_before is_bridge_running is_discovery_written (e1 @ e2 @ e3 @ e4)"
proof -
  from assms have ie: "interactive_events e1" and be: "bridge_events e2"
    and k1: "e2 \<noteq> [] \<Longrightarrow> facts_known e1" and k2: "e3 \<noteq> [] \<Longrightarrow> bridge_confirmed e2"
    and td: "list_all is_teardown e4"
    by (simp_all add: run_events_def)
  have q1: "list_all (\<lambda>e. \<not> is_bridge_launch e) e1" "list_all (\<lambda>e. \<not> is_discovery_written e) e1"
    using ie by (auto simp: interactive_events_def facts_known_def)
  have q2: "list_all (\<lambda>e. \<not> is_discovery_written e) e2"
    using be by (auto simp: bridge_events_def bridge_confirmed_def)
  note q4 = teardown_list_quiet(1,2) [OF td]
  show "never_before is_facts is_bridge_launch (e1 @ e2 @ e3 @ e4)"
  proof (cases "e2 = []")
    case True
    with k2 have "e3 = []" by (auto simp: bridge_confirmed_def)
    with True q1 q4 show ?thesis by (intro never_before_quiet) simp
  next
    case False
    from k1 [OF False] show ?thesis by (auto simp: facts_known_def)
  qed
  show "never_before is_bridge_running is_discovery_written (e1 @ e2 @ e3 @ e4)"
  proof (cases "e3 = []")
    case True
    with q1 q2 q4 show ?thesis by (intro never_before_quiet) simp
  next
    case False
    from k2 [OF False] have b: "bridge_confirmed e2" .
    then have "e2 \<noteq> []" by (auto simp: bridge_confirmed_def)
    from k1 [OF this] b show ?thesis by (auto simp: facts_known_def bridge_confirmed_def)
  qed
qed

text \<open>
  Claim C8. In the trace of every run of a freshly constructed setup object (also of a
  run that fails, is interrupted or is still monitoring), the bridge is not launched
  before positive port and non-empty token have been extracted from the interactive
  server's output, and the discovery document is not written before the bridge has
  been found alive after the confirmation delay.
\<close>

theorem bridge_after_facts_config_after_bridge:
  "never_before is_facts is_bridge_launch (trace (snd (run w (rs\<lparr>trace := []\<rparr>))))
   \<and> never_before is_bridge_running is_discovery_written (trace (snd (run w (rs\<lparr>trace := []\<rparr>))))"
proof -
  obtain e1 e2 e3 e4 where ev: "run_events (rs\<lparr>trace := []\<rparr>) (snd (run w (rs\<lparr>trace := []\<rparr>))) e1 e2 e3 e4"
    using run_events_of_run by blast
  then have "trace (snd (run w (rs\<lparr>trace := []\<rparr>))) = e1 @ e2 @ e3 @ e4"
    by (simp add: run_events_def)
  with run_events_order [OF ev] show ?thesis by simp
qed

section \<open>The settings file after the run\<close>

lemma map_of_dict_set: "map_of (dict_set k v kvs) k = Some v"
  by (induction kvs) auto

lemma update_enables:
  assumes "update_enabled_mcp_servers nm j = Inr s"
  shows "enabled_in nm s"
proof (cases j)
  case (JObj kvs)
  define kvs1 where "kvs1 = (if ''enabledMcpjsonServers'' \<notin> fst ` set kvs
                  then dict_set ''enabledMcpjsonServers'' (JArr []) kvs else kvs)"
  have u: "(case map_of kvs1 ''enabledMcpjsonServers'' of
           Some (JArr xs) \<Rightarrow>
             if JStr nm \<notin> set xs
             then Inr (JObj (dict_set ''enabledMcpjsonServers'' (JArr (xs @ [JStr nm])) kvs1))
             else Inr (JObj kvs1)
         | Some (JStr t) \<Rightarrow>
             if is_substring nm t then Inr (JObj kvs1) else Inl OtherException
         | Some (JObj m) \<Rightarrow>
             if nm \<in> fst ` set m then Inr (JObj kvs1) else Inl OtherException
         | _ \<Rightarrow> Inl OtherException) = Inr s"
    using assms JObj unfolding kvs1_def by (simp add: Let_def)
  show ?thesis
  proof (cases "map_of kvs1 ''enabledMcpjsonServers''")
    case None
    with u show ?thesis by simp
  next
    case (Some v)
    show ?thesis
    proof (cases v)
      case (JArr xs)
      show ?thesis
      proof (cases "JStr nm \<in> set xs")
        case True
        with u Some JArr have "s = JObj kvs1" by simp
        with Some JArr True show ?thesis by (simp add: enabled_in_def)
      next
        case False
        with u Some JArr
        have "s = JObj (dict_set ''enabledMcpjsonServers'' (JArr (xs @ [JStr nm])) kvs1)" by simp
        then show ?thesis by (simp add: enabled_in_def map_of_dict_set)
      qed
    next
      case (JStr t)
      with u Some show ?thesis by (auto simp: enabled_in_def split: if_splits)
    next
      case (JObj m)
      with u Some show ?thesis by (force simp: enabled_in_def split: if_splits)
    qed (use u Some in simp_all)
  qed
qed (use assms in simp_all)

lemma discovery_is_not_settings:
  "fst (resolve_configuration_paths out) \<noteq> get_claude_config_path proj"
proof
  assume "fst (resolve_configuration_paths out) = get_claude_config_path proj"
  then have "last (out @ [''.mcp.json'']) = last (proj @ [''.claude'', ''settings.local.json''])"
    by (simp add: resolve_configuration_paths_def get_claude_config_path_def)
  then show False by simp
qed

lemma run_events_settings:
  assumes ev: "run_events rs rs' e1 e2 e3 e4"
    and ne: "mcp_config_path (obj rs) \<noteq> get_claude_config_path (project_dir (obj rs))"
    and sw: "SettingsWritten (get_claude_config_path (project_dir (obj rs))) \<in> set (e1 @ e2 @ e3 @ e4)"
  shows "\<exists>s. update_enabled_mcp_servers ''jupyter''
                (load_existing_claude_settings (files rs)
                   (get_claude_config_path (project_dir (obj rs)))) = Inr s
            \<and> files rs' (get_claude_config_path (project_dir (obj rs))) = Some (Doc s)"
proof -
  let ?pc = "get_claude_config_path (project_dir (obj rs))"
  from ev have ie: "interactive_events e1" and be: "bridge_events e2"
    and td: "list_all is_teardown e4"
    and cf: "config_events (mcp_config_path (obj rs)) ?pc (files rs) (files rs') e3"
    by (simp_all add: run_events_def)
  have "SettingsWritten ?pc \<notin> set e1"
    using ie by (auto simp: interactive_events_def facts_known_def)
  moreover have "SettingsWritten ?pc \<notin> set e2"
    using be by (auto simp: bridge_events_def bridge_confirmed_def)
  moreover have "SettingsWritten ?pc \<notin> set e4"
    using td by (rule teardown_list_quiet(3))
  ultimately have "SettingsWritten ?pc \<in> set e3" using sw by simp
  with cf ne show ?thesis unfolding config_events_def by auto
qed

text \<open>
  Claim C10. With the discovery document at \<open><output_dir>/.mcp.json\<close>, \<open>cleanup\<close>
  changes no file but the discovery document; in particular the settings file is as
  it was. And when a run of a fresh setup object has written the settings file, then
  after the run, teardown included, the file holds the settings as updated from what
  was on disk before the run, and \<open>jupyter\<close> is enabled in them.
\<close>

theorem cleanup_keeps_settings:
  assumes "mcp_config_path (obj rs) = fst (resolve_configuration_paths out)"
  shows "(\<forall>q. q \<noteq> mcp_config_path (obj rs) \<longrightarrow> files (snd (cleanup w rs)) q = files rs q)
    \<and> files (snd (cleanup w rs)) (get_claude_config_path (project_dir (obj rs))) =
        files rs (get_claude_config_path (project_dir (obj rs)))
    \<and> (trace rs = []
        \<and> SettingsWritten (get_claude_config_path (project_dir (obj rs))) \<in> set (trace (snd (run w rs)))
        \<longrightarrow> (\<exists>s. update_enabled_mcp_servers ''jupyter''
                    (load_existing_claude_settings (files rs)
                       (get_claude_config_path (project_dir (obj rs)))) = Inr s
                \<and> enabled_in ''jupyter'' s
                \<and> files (snd (run w rs)) (get_claude_config_path (project_dir (obj rs))) =
                    Some (Doc s)))"
proof -
  let ?pc = "get_claude_config_path (project_dir (obj rs))"
  have ne: "mcp_config_path (obj rs) \<noteq> ?pc"
    using assms discovery_is_not_settings [of out "project_dir (obj rs)"] by simp
  obtain x rs' where c: "cleanup w rs = (x, rs')" by (cases "cleanup w rs")
  have fr: "files (snd (cleanup w rs)) q = files rs q" if "q \<noteq> mcp_config_path (obj rs)" for q
    using cleanup_frame(2) [OF c that] c by simp
  have run_part: "\<exists>s. update_enabled_mcp_servers ''jupyter''
                    (load_existing_claude_settings (files rs) ?pc) = Inr s
                \<and> enabled_in ''jupyter'' s
                \<and> files (snd (run w rs)) ?pc = Some (Doc s)"
    if t: "trace rs = []" and sw: "SettingsWritten ?pc \<in> set (trace (snd (run w rs)))"
  proof -
    obtain e1 e2 e3 e4 where ev: "run_events rs (snd (run w rs)) e1 e2 e3 e4"
      using run_events_of_run by blast
    then have "trace (snd (run w rs)) = e1 @ e2 @ e3 @ e4"
      using t by (simp add: run_events_def)
    with sw have "SettingsWritten ?pc \<in> set (e1 @ e2 @ e3 @ e4)" by simp
    from run_events_settings [OF ev ne this] obtain s
      where s: "update_enabled_mcp_servers ''jupyter'' (load_existing_claude_settings (files rs) ?pc) = Inr s"
        "files (snd (run w rs)) ?pc = Some (Doc s)"
      by blast
    with update_enables [OF s(1)] show ?thesis by blast
  qed
  show ?thesis
  proof (intro conjI allI impI)
    fix q assume "q \<noteq> mcp_config_path (obj rs)"
    then show "files (snd (cleanup w rs)) q = files rs q" by (rule fr)
  next
    show "files (snd (cleanup w rs)) ?pc = files rs ?pc"
      using ne by (intro fr) simp
  next
    assume "trace rs = [] \<and> SettingsWritten ?pc \<in> set (trace (snd (run w rs)))"
    then show "\<exists>s. update_enabled_mcp_servers ''jupyter''
                    (load_existing_claude_settings (files rs) ?pc) = Inr s
                \<and> enabled_in ''jupyter'' s
                \<and> files (snd (run w rs)) ?pc = Some (Doc s)"
      using run_part by simp
  qed
qed

section \<open>The concrete run, phase by phase\<close>

lemma try_patterns_concrete:
  "try_patterns patterns ''[I] http://localhost:8888/lab?token=abcdef0123456789'' =
     Some (8888, ''abcdef0123456789'')"
  by (simp add: patterns_def match_at_def is_digit_def is_hex_def py_int_def digit_val_def)

lemma str_int_concrete: "str_int 8888 = ''8888''"
  by (simp add: str_int_def)

lemma venv_python_concrete:
  "venv_python w0 [''home'', ''u''] = Inr [''home'', ''u'', ''jupyter-mcp-env'', ''bin'', ''python'']"
  by (simp add: venv_python_def get_virtual_env_python_def get_virtual_env_path_def w0_def)

lemma start_jupyter_lab_concrete: "start_jupyter_lab w0 rs0 = (Inr True, rs1c)"
proof -
  have pd: "project_dir st0 = [''home'', ''u'']" by (simp add: st0_def)
  have cmd: "jupyter_cmd st0 (str_path [''home'', ''u'', ''jupyter-mcp-env'', ''bin'', ''python''])
             = cmd_interactive"
    by (simp add: jupyter_cmd_def str_path_def st0_def cmd_interactive_def)
  have ex: "extract_jupyter_details (st0\<lparr>jupyter_process := Some (Popen cmd_interactive)\<rparr>)
              ''[I] http://localhost:8888/lab?token=abcdef0123456789'' =
            (True, st_facts\<lparr>jupyter_process := Some (Popen cmd_interactive)\<rparr>)"
    by (simp add: extract_jupyter_details_def try_patterns_concrete str_int_concrete st_facts_def)
  have w: "jupyter_popen_ok w0"
    "jupyter_output w0 = [ReadLine ''[I] http://localhost:8888/lab?token=abcdef0123456789'']"
    by (simp_all add: w0_def)
  have pt: "jupyter_port st_facts = Some 8888" "jupyter_token st_facts = Some ''abcdef0123456789''"
    by (simp_all add: st_facts_def)
  show ?thesis
    by (simp add: start_jupyter_lab_def rs0_def pd venv_python_concrete cmd Let_def w ex pt
          emit_def rs1c_def)
qed


lemma bridge_environment_ok:
  assumes "jupyter_url st = Some url" "jupyter_token st = Some tok"
    and "validate_url (urlparse w) url" "validate_token tok" "url \<noteq> []"
    and "get_relative_path_for_document_id (project_dir st) (notebook_path st) = nb" "nb \<noteq> []"
  shows "bridge_environment w st =
           (Inr (env_vars_of url tok nb), st\<lparr>validated_env := env_vars_of url tok nb\<rparr>)"
  using assms create_env_ok [of "urlparse w" url tok nb st]
  by (simp add: bridge_environment_def)

lemma bridge_environment_run:
  assumes "jupyter_url st = Some ''http://localhost:8888''"
    and "jupyter_token st = Some ''abcdef0123456789''"
    and "project_dir st = [''home'', ''u'']" "notebook_path st = [''home'', ''u'', ''nb.ipynb'']"
  shows "bridge_environment w0 st = (Inr env0, st\<lparr>validated_env := env0\<rparr>)"
proof -
  have "validate_token ''abcdef0123456789''"
    by (simp add: validate_token_def re_match_hex_def is_hex_def)
  moreover have "validate_url (urlparse w0) ''http://localhost:8888''"
    by (simp add: validate_url_def w0_def urlparse0_def)
  moreover have "get_relative_path_for_document_id (project_dir st) (notebook_path st) = ''nb.ipynb''"
    using assms by (simp add: get_relative_path_for_document_id_def)
  ultimately show ?thesis
    unfolding env0_def using assms(1,2) by (intro bridge_environment_ok) simp_all
qed

lemma start_mcp_server_concrete: "start_mcp_server w0 rs1c = (Inr True, rs2c)"
proof -
  let ?st1 = "st_facts\<lparr>jupyter_process := Some (Popen cmd_interactive)\<rparr>"
  have da: "details_available ?st1"
    by (simp add: details_available_def st_facts_def)
  have be: "bridge_environment w0 ?st1 = (Inr env0, ?st1\<lparr>validated_env := env0\<rparr>)"
    by (rule bridge_environment_run) (simp_all add: st_facts_def st0_def)
  have pd: "project_dir st_facts = [''home'', ''u'']" by (simp add: st_facts_def st0_def)
  have cmd: "mcp_cmd (str_path [''home'', ''u'', ''jupyter-mcp-env'', ''bin'', ''python'']) = cmd_bridge"
    by (simp add: mcp_cmd_def str_path_def cmd_bridge_def)
  have w: "mcp_popen_ok w0" "mcp_alive_after_delay w0" by (simp_all add: w0_def)
  show ?thesis
    by (simp add: start_mcp_server_def rs1c_def da be pd venv_python_concrete cmd w Let_def
          emit_def rs2c_def)
qed

lemma generate_configurations_concrete: "generate_configurations w0 rs2c = (Inr True, rs3c)"
proof -
  let ?st2 = "st_facts\<lparr>jupyter_process := Some (Popen cmd_interactive),
                           mcp_process := Some (Popen cmd_bridge), validated_env := env0\<rparr>"
  let ?mp = "[''home'', ''u'', ''.mcp.json'']"
  let ?pc = "[''home'', ''u'', ''.claude'', ''settings.local.json'']"
  have da: "details_available ?st2"
    by (simp add: details_available_def st_facts_def)
  have be: "bridge_environment w0 ?st2 = (Inr env0, ?st2\<lparr>validated_env := env0\<rparr>)"
    by (rule bridge_environment_run) (simp_all add: st_facts_def st0_def)
  have same: "?st2\<lparr>validated_env := env0\<rparr> = ?st2" by simp
  have f: "mcp_config_path st_facts = ?mp" "project_dir st_facts = [''home'', ''u'']"
    "claude_config st_facts" by (simp_all add: st_facts_def st0_def)
  have w: "mcp_config_writable w0" "sys_executable w0 = ''/usr/bin/python3''"
    "claude_dir_ok w0" "claude_settings_writable w0" by (simp_all add: w0_def)
  define rsm where "rsm = \<lparr>obj = ?st2,
      files = fs0(?mp \<mapsto> Doc (mcp_config ''/usr/bin/python3'' env0)),
      trace = trace rs2c @ [DiscoveryWritten ?mp]\<rparr>"
  have g: "generate_mcp_config w0 rs2c = (None, rsm)"
    by (simp add: generate_mcp_config_def generate_mcp_config_states_def rs2c_def be f w
          write_json_states_def emit_def rsm_def)
  have ld: "load_existing_claude_settings (files rsm) (get_claude_config_path (project_dir (obj rsm)))
            = JObj [(''theme'', JStr ''dark'')]"
    by (simp add: rsm_def f get_claude_config_path_def load_existing_claude_settings_def fs0_def)
  have up: "update_enabled_mcp_servers ''jupyter'' (JObj [(''theme'', JStr ''dark'')]) =
            Inr (JObj [(''theme'', JStr ''dark''), (''enabledMcpjsonServers'', JArr [JStr ''jupyter''])])"
    using update_adds_key [of "[(''theme'', JStr ''dark'')]" "''jupyter''"] by simp
  have s: "generate_claude_settings w0 ''jupyter'' rsm =
           (True, rsm\<lparr>files := (files rsm)(get_claude_config_path (project_dir (obj rsm)) \<mapsto>
                     Doc (JObj [(''theme'', JStr ''dark''),
                                (''enabledMcpjsonServers'', JArr [JStr ''jupyter''])])),
                   trace := trace rsm @ [SettingsWritten (get_claude_config_path (project_dir (obj rsm)))]\<rparr>)"
    using w(3,4) ld up by (intro generate_claude_settings_ok) simp_all
  have "generate_configurations w0 rs2c =
          (Inr True, snd (generate_claude_settings w0 ''jupyter'' rsm))"
    using da g f(3) by (simp add: generate_configurations_def rs2c_def rsm_def)
  also have "snd (generate_claude_settings w0 ''jupyter'' rsm) = rs3c"
    unfolding s by (simp add: rsm_def rs2c_def rs3c_def f get_claude_config_path_def)
  finally show ?thesis .
qed

lemma monitor_signal:
  assumes "\<And>r j. stop_of w r j \<noteq> KillRaises"
  shows "monitor_processes w (replicate k Alive @ Signal n # ts) rs =
           (Some (Inl (SystemExit 0)), snd (cleanup w rs))"
proof (induction k)
  case 0
  from cleanup_without_kill_failure [of w rs, OF assms]
  have "cleanup w rs = (None, snd (cleanup w rs))" by simp
  then have "signal_handler w n rs = (SystemExit 0, snd (cleanup w rs))"
    unfolding signal_handler_def by (metis (mono_tags, lifting) case_prod_conv option.simps(4))
  then show ?case by simp
next
  case (Suc k)
  then show ?case by simp
qed

section \<open>Signals and the exit code\<close>

lemma signal_exit_aux:
  assumes p1: "start_jupyter_lab w rs = (Inr True, rs1)"
    and p2: "start_mcp_server w rs1 = (Inr True, rs2)"
    and p3: "generate_configurations w rs2 = (Inr True, rs3)"
    and ticks: "monitor_ticks w = replicate k Alive @ Signal n # ts"
    and nokill: "\<And>r j. stop_of w r j \<noteq> KillRaises"
  shows "run w rs = (Some (Inl (SystemExit 0)), snd (cleanup w (snd (cleanup w rs3))))"
    and "main_server_phase w rs = (Some 0, snd (cleanup w (snd (cleanup w rs3))))"
proof -
  define rsA where "rsA = snd (cleanup w rs3)"
  define rsB where "rsB = snd (cleanup w rsA)"
  have body: "run_body w rs = (Some (Inl (SystemExit 0)), rsA)"
    using p1 p2 p3 ticks monitor_signal [of w k n ts rs3, OF nokill]
    by (simp add: run_body_def rsA_def)
  obtain X where "cleanup w rsA = (None, X)"
    using cleanup_without_kill_failure [of w rsA, OF nokill] by blast
  then have fin: "cleanup w rsA = (None, rsB)" by (simp add: rsB_def)
  have r: "run w rs = (Some (Inl (SystemExit 0)), rsB)"
    by (simp add: run_def body fin)
  then show "run w rs = (Some (Inl (SystemExit 0)), snd (cleanup w (snd (cleanup w rs3))))"
    by (simp add: rsA_def rsB_def)
  show "main_server_phase w rs = (Some 0, snd (cleanup w (snd (cleanup w rs3))))"
    by (simp add: main_server_phase_def r rsA_def rsB_def)
qed

text \<open>
  Claim C4, as the code has it. Once the handler is installed and the run has reached
  monitoring, a signal of any number (SIGINT and SIGTERM alike) runs the handler:
  it tears down and raises \<open>SystemExit(0)\<close>; \<open>finally\<close> in \<open>run\<close> tears down once
  more, nothing catches the exit, and the process ends with exit code 0, provided no
  forced kill raises during teardown.
\<close>

theorem signal_exits_zero:
  assumes "start_jupyter_lab w rs = (Inr True, rs1)"
    and "start_mcp_server w rs1 = (Inr True, rs2)"
    and "generate_configurations w rs2 = (Inr True, rs3)"
    and "monitor_ticks w = replicate k Alive @ Signal n # ts"
    and "\<And>r j. stop_of w r j \<noteq> KillRaises"
  shows "signal_handler w n rs3 = (SystemExit 0, snd (cleanup w rs3))
    \<and> main_server_phase w rs = (Some 0, snd (cleanup w (snd (cleanup w rs3))))"
proof -
  obtain X where c: "cleanup w rs3 = (None, X)"
    using cleanup_without_kill_failure [of w rs3, OF assms(5)] by blast
  then have "signal_handler w n rs3 = (SystemExit 0, snd (cleanup w rs3))"
    by (simp add: signal_handler_def)
  with signal_exit_aux(2) [OF assms] show ?thesis by simp
qed

lemma w0_ticks: "monitor_ticks w0 = replicate 1 Alive @ Signal 2 # []"
  by (simp add: w0_def)

lemma w0_stops: "stop_of w0 r j \<noteq> KillRaises"
  by (simp add: w0_def)

theorem signal_exits_zero_witness:
  "signal_handler w0 2 rs3c = (SystemExit 0, snd (cleanup w0 rs3c))
   \<and> main_server_phase w0 rs0 = (Some 0, snd (cleanup w0 (snd (cleanup w0 rs3c))))"
  using signal_exits_zero [OF start_jupyter_lab_concrete start_mcp_server_concrete
      generate_configurations_concrete w0_ticks w0_stops] .

text \<open>
  The claim as written asks for exit code 130. In the concrete run SIGINT arrives
  during monitoring and the exit code is not 130.
\<close>

theorem signal_exit_code_counterexample: "fst (main_server_phase w0 rs0) \<noteq> Some 130"
  using signal_exit_aux(2) [OF start_jupyter_lab_concrete start_mcp_server_concrete
      generate_configurations_concrete w0_ticks w0_stops]
  by simp

section \<open>The concrete run as a whole\<close>

lemma run_concrete:
  "run w0 rs0 = (Some (Inl (SystemExit 0)), snd (cleanup w0 (snd (cleanup w0 rs3c))))"
  by (rule signal_exit_aux(1) [OF start_jupyter_lab_concrete start_mcp_server_concrete
      generate_configurations_concrete w0_ticks w0_stops])

lemma run_concrete_trace:
  "SettingsWritten [''home'', ''u'', ''.claude'', ''settings.local.json''] \<in> set (trace (snd (run w0 rs0)))"
proof -
  obtain x1 r1 where c1: "cleanup w0 rs3c = (x1, r1)" by (cases "cleanup w0 rs3c")
  obtain x2 r2 where c2: "cleanup w0 r1 = (x2, r2)" by (cases "cleanup w0 r1")
  from cleanup_frame(3) [OF c1] cleanup_frame(3) [OF c2]
  obtain td1 td2 where "trace r2 = (trace rs3c @ td1) @ td2" by auto
  moreover have "snd (run w0 rs0) = r2" using run_concrete c1 c2 by simp
  ultimately show ?thesis by (simp add: rs3c_def)
qed

theorem cleanup_keeps_settings_witness:
  "files (snd (cleanup w0 rs0)) [''home'', ''u'', ''.claude'', ''settings.local.json''] =
     Some (Doc (JObj [(''theme'', JStr ''dark'')]))
   \<and> (\<exists>s. update_enabled_mcp_servers ''jupyter'' (JObj [(''theme'', JStr ''dark'')]) = Inr s
          \<and> enabled_in ''jupyter'' s
          \<and> files (snd (run w0 rs0)) [''home'', ''u'', ''.claude'', ''settings.local.json''] =
              Some (Doc s))"
proof -
  have m: "mcp_config_path (obj rs0) = fst (resolve_configuration_paths [''home'', ''u''])"
    by (simp add: rs0_def st0_def resolve_configuration_paths_def)
  have pc: "get_claude_config_path (project_dir (obj rs0)) =
            [''home'', ''u'', ''.claude'', ''settings.local.json'']"
    by (simp add: rs0_def st0_def get_claude_config_path_def)
  have f: "files rs0 [''home'', ''u'', ''.claude'', ''settings.local.json''] =
           Some (Doc (JObj [(''theme'', JStr ''dark'')]))"
    by (simp add: rs0_def fs0_def)
  have ld: "load_existing_claude_settings (files rs0) [''home'', ''u'', ''.claude'', ''settings.local.json'']
            = JObj [(''theme'', JStr ''dark'')]"
    by (simp add: load_existing_claude_settings_def f)
  have t: "trace rs0 = []" by (simp add: rs0_def)
  from cleanup_keeps_settings [OF m, of w0] show ?thesis
    unfolding pc ld f using t run_concrete_trace by simp
qed

section \<open>The command of the discovery document\<close>

text \<open>
  Claim C3 at the input where the code departs from it. The tool runs under
  \<open>/usr/bin/python3\<close> in the project \<open>/home/u\<close>. All three startup phases succeed;
  the bridge was launched with the interpreter of the environment,
  \<open>/home/u/jupyter-mcp-env/bin/python\<close>, and the discovery document, otherwise of the
  stated shape, names \<open>/usr/bin/python3\<close> as the command.
\<close>

theorem discovery_command_is_not_bridge_interpreter:
  "start_jupyter_lab w0 rs0 = (Inr True, rs1c)
   \<and> start_mcp_server w0 rs1c = (Inr True, rs2c)
   \<and> generate_configurations w0 rs2c = (Inr True, rs3c)
   \<and> mcp_process (obj rs3c) =
       Some (Popen [''/home/u/jupyter-mcp-env/bin/python'', ''-m'', ''jupyter_mcp_server''])
   \<and> files rs3c [''home'', ''u'', ''.mcp.json''] =
       Some (Doc (JObj [(''mcpServers'',
         JObj [(''jupyter'',
           JObj [(''command'', JStr ''/usr/bin/python3''),
                 (''args'', JArr [JStr ''-m'', JStr ''jupyter_mcp_server'']),
                 (''env'', JObj [(''TRANSPORT'', JStr ''stdio''),
                                 (''PROVIDER'', JStr ''jupyter''),
                                 (''DOCUMENT_URL'', JStr ''http://localhost:8888''),
                                 (''DOCUMENT_TOKEN'', JStr ''abcdef0123456789''),
                                 (''DOCUMENT_ID'', JStr ''nb.ipynb''),
                                 (''RUNTIME_URL'', JStr ''http://localhost:8888''),
                                 (''RUNTIME_TOKEN'', JStr ''abcdef0123456789''),
                                 (''START_NEW_RUNTIME'', JStr ''true'')])])])]))"
  by (simp add: start_jupyter_lab_concrete start_mcp_server_concrete
        generate_configurations_concrete rs3c_def cmd_bridge_def mcp_config_def env0_def
        env_vars_of_def)

end
